theory Spec2Isabelle
  imports Complex_Main
begin

section \<open>Python values and built-in operations used by Optimizer.py\<close>

text \<open>
  Exceptions are values. Only the exception classes that the modelled statements of
  \<^verbatim>\<open>Optimizer.py\<close> can raise are listed. \<open>KeyError\<close> carries the missing key,
  \<open>ValueError\<close> the text that could not be converted. In Python \<open>KeyError\<close> and
  \<open>IndexError\<close> are the two subclasses of \<open>LookupError\<close>.
\<close>

datatype py_error =
    IndexError
  | KeyError string
  | TypeError
  | ValueError string
  | SyntaxError

fun is_LookupError :: "py_error \<Rightarrow> bool" where
  "is_LookupError IndexError = True"
| "is_LookupError (KeyError k) = True"
| "is_LookupError e = False"

text \<open>
  A text file is the list of its lines, as iteration over the file object yields them:
  every line keeps its terminating newline (the last line may lack it).
\<close>

type_synonym text_file = "string list"

text \<open>\<^verbatim>\<open>s.split(sep)\<close> with an explicit one-character separator: the result is never empty.\<close>

fun split_chr :: "char \<Rightarrow> string \<Rightarrow> string list" where
  "split_chr sep [] = [[]]"
| "split_chr sep (c # cs) =
     (if c = sep then [] # split_chr sep cs
      else (let r = split_chr sep cs in (c # hd r) # tl r))"

text \<open>\<^verbatim>\<open>s.strip(c)\<close> for a one-character argument.\<close>

definition strip_chr :: "char \<Rightarrow> string \<Rightarrow> string" where
  "strip_chr c s = rev (dropWhile (\<lambda>x. x = c) (rev (dropWhile (\<lambda>x. x = c) s)))"

text \<open>
  Subscripts of a sequence of length \<open>len\<close>: \<^verbatim>\<open>0 .. len-1\<close> address from the front,
  \<^verbatim>\<open>-len .. -1\<close> from the back, anything else is out of range.
\<close>

definition py_index :: "nat \<Rightarrow> int \<Rightarrow> nat option" where
  "py_index len i =
     (if 0 \<le> i \<and> i < int len then Some (nat i)
      else if i < 0 \<and> - int len \<le> i then Some (nat (int len + i))
      else None)"

text \<open>\<^verbatim>\<open>xs[i]\<close> on a list or a string.\<close>

definition py_getitem :: "'a list \<Rightarrow> int \<Rightarrow> py_error + 'a" where
  "py_getitem xs i =
     (case py_index (length xs) i of
        None \<Rightarrow> Inl IndexError
      | Some j \<Rightarrow> Inr (xs ! j))"

text \<open>
  \<^verbatim>\<open>xs[k] = v\<close> on a list: the subscript is an integer or, as in
  \<^verbatim>\<open>positionReindexer\<close>, a string; a list accepts only the former.
\<close>

datatype py_subscript = SubInt int | SubStr string

fun list_setitem :: "'a list \<Rightarrow> py_subscript \<Rightarrow> 'a \<Rightarrow> py_error + 'a list" where
  "list_setitem xs (SubStr k) v = Inl TypeError"
| "list_setitem xs (SubInt i) v =
     (case py_index (length xs) i of
        None \<Rightarrow> Inl IndexError
      | Some j \<Rightarrow> Inr (xs[j := v]))"

text \<open>Sequencing of statements that may raise: the first exception ends the computation.\<close>

definition py_then :: "py_error + 'a \<Rightarrow> ('a \<Rightarrow> py_error + 'b) \<Rightarrow> py_error + 'b" where
  "py_then r f = (case r of Inl e \<Rightarrow> Inl e | Inr x \<Rightarrow> f x)"

text \<open>\<^verbatim>\<open>d[k]\<close> on a dict: a missing key raises \<open>KeyError\<close>.\<close>

definition dict_getitem :: "(string \<rightharpoonup> 'v) \<Rightarrow> string \<Rightarrow> py_error + 'v" where
  "dict_getitem d k = (case d k of None \<Rightarrow> Inl (KeyError k) | Some v \<Rightarrow> Inr v)"

definition NL :: string where
  "NL = [CHR 0x0A]"

definition TAB :: char where
  "TAB = CHR 0x09"

subsection \<open>Numbers and their \<^verbatim>\<open>str\<close>\<close>

definition digit_char :: "nat \<Rightarrow> char" where
  "digit_char d = ''0123456789'' ! d"

fun str_nat :: "nat \<Rightarrow> string" where
  "str_nat n = (if n < 10 then [digit_char n] else str_nat (n div 10) @ [digit_char (n mod 10)])"

declare str_nat.simps [simp del]

definition str_int :: "int \<Rightarrow> string" where
  "str_int i = (if i < 0 then CHR ''-'' # str_nat (nat (- i)) else str_nat (nat i))"

text \<open>
  A Python \<^verbatim>\<open>float\<close> is represented by what \<^verbatim>\<open>repr\<close> computes from it before
  formatting: the sign, the shortest string of decimal digits that reads back as the same
  double, and the position of the decimal point (the value is \<open>0.d\<^sub>1\<dots>d\<^sub>n\<close> times
  ten to the power \<open>decpt\<close>). Zero is the digit string \<open>0\<close> with the point after it, as
  \<^verbatim>\<open>dtoa\<close> returns it. Since \<^verbatim>\<open>repr\<close> round-trips, distinct doubles have distinct
  representations. Not every representation is a double; what is proved for all of them
  holds for the doubles.
\<close>

datatype pyfloat =
    Finite (negative: bool) (digits: "nat list") (decpt: int)
  | Infinity bool
  | NaN

definition wf_digits :: "nat list \<Rightarrow> int \<Rightarrow> bool" where
  "wf_digits ds dp \<longleftrightarrow>
     ds \<noteq> [] \<and> list_all (\<lambda>d. d < 10) ds \<and>
     (if hd ds = 0 then ds = [0] \<and> dp = 1 else last ds \<noteq> 0)"

fun wf_float :: "pyfloat \<Rightarrow> bool" where
  "wf_float (Finite neg ds dp) = wf_digits ds dp"
| "wf_float (Infinity neg) = True"
| "wf_float NaN = True"

text \<open>The exponent of the scientific format, printed by \<^verbatim>\<open>%+.02d\<close>.\<close>

definition str_exponent :: "int \<Rightarrow> string" where
  "str_exponent e =
     (if e < 0 then CHR ''-'' else CHR ''+'') #
     (if \<bar>e\<bar> < 10 then [CHR ''0''] else []) @ str_nat (nat \<bar>e\<bar>)"

text \<open>
  \<^verbatim>\<open>repr\<close> of a finite float without its sign (CPython's \<^verbatim>\<open>format_float_short\<close>
  with format code \<^verbatim>\<open>'r'\<close>): scientific format when the point lies more than 16 places
  right or more than 3 places left of the first digit, otherwise positional format, padded
  with zeros and with \<^verbatim>\<open>.0\<close> added to an integral value.
\<close>

definition repr_finite :: "nat list \<Rightarrow> int \<Rightarrow> string" where
  "repr_finite ds dp =
     (let cs = map digit_char ds in
      if dp \<le> - 4 \<or> 16 < dp then
        hd cs # (if 1 < length cs then CHR ''.'' # tl cs else []) @ CHR ''e'' # str_exponent (dp - 1)
      else if dp \<le> 0 then
        ''0.'' @ replicate (nat (- dp)) CHR ''0'' @ cs
      else if nat dp < length cs then
        take (nat dp) cs @ CHR ''.'' # drop (nat dp) cs
      else
        cs @ replicate (nat dp - length cs) CHR ''0'' @ ''.0'')"

fun str_float :: "pyfloat \<Rightarrow> string" where
  "str_float (Finite neg ds dp) = (if neg then CHR ''-'' # repr_finite ds dp else repr_finite ds dp)"
| "str_float (Infinity neg) = (if neg then ''-inf'' else ''inf'')"
| "str_float NaN = ''nan''"

text \<open>The values passed as hyperparameters: \<^verbatim>\<open>None\<close>, an \<^verbatim>\<open>int\<close> or a \<^verbatim>\<open>float\<close>.\<close>

datatype pyval = PyNone | PyInt int | PyFloat pyfloat

fun py_str :: "pyval \<Rightarrow> string" where
  "py_str PyNone = ''None''"
| "py_str (PyInt i) = str_int i"
| "py_str (PyFloat x) = str_float x"

fun wf_val :: "pyval \<Rightarrow> bool" where
  "wf_val (PyFloat x) = wf_float x"
| "wf_val v = True"

text \<open>The numeric value of a finite float and Python's \<^verbatim>\<open>==\<close> on hyperparameter values.\<close>

definition digits_value :: "nat list \<Rightarrow> nat" where
  "digits_value ds = foldl (\<lambda>a d. 10 * a + d) 0 ds"

definition finite_value :: "bool \<Rightarrow> nat list \<Rightarrow> int \<Rightarrow> rat" where
  "finite_value neg ds dp =
     (let m = of_nat (digits_value ds); k = dp - int (length ds);
          v = (if 0 \<le> k then m * 10 ^ nat k else m / 10 ^ nat (- k))
      in if neg then - v else v)"

fun py_eq :: "pyval \<Rightarrow> pyval \<Rightarrow> bool" where
  "py_eq PyNone PyNone = True"
| "py_eq (PyInt i) (PyInt j) = (i = j)"
| "py_eq (PyInt i) (PyFloat (Finite neg ds dp)) = (of_int i = finite_value neg ds dp)"
| "py_eq (PyFloat (Finite neg ds dp)) (PyInt i) = (finite_value neg ds dp = of_int i)"
| "py_eq (PyFloat (Finite neg ds dp)) (PyFloat (Finite neg' ds' dp')) =
     (finite_value neg ds dp = finite_value neg' ds' dp')"
| "py_eq (PyFloat (Infinity neg)) (PyFloat (Infinity neg')) = (neg = neg')"
| "py_eq v w = False"

definition float_zero :: pyfloat where
  "float_zero = Finite False [0] 1"

definition float_minus_one :: pyfloat where
  "float_minus_one = Finite True [1] 1"

text \<open>
  The conversions of the Python runtime from text are parameters of the model:
  \<^verbatim>\<open>int(s)\<close> and \<^verbatim>\<open>float(s)\<close> (\<open>None\<close> where they raise \<open>ValueError\<close>) and
  \<^verbatim>\<open>ast.literal_eval(s)\<close>. A literal is a dict from residue codes to energies, or
  another object, which cannot be subscripted with a string. The energies of a dict are
  taken as the floats NumPy stores for them.
\<close>

datatype pylit = LitDict "string \<rightharpoonup> pyfloat" | LitOther

record py_runtime =
  int_of_text :: "string \<Rightarrow> int option"
  float_of_text :: "string \<Rightarrow> pyfloat option"
  literal_eval :: "string \<Rightarrow> py_error + pylit"

definition py_int :: "py_runtime \<Rightarrow> string \<Rightarrow> py_error + int" where
  "py_int rt s = (case int_of_text rt s of None \<Rightarrow> Inl (ValueError s) | Some i \<Rightarrow> Inr i)"

definition py_float :: "py_runtime \<Rightarrow> string \<Rightarrow> py_error + pyfloat" where
  "py_float rt s = (case float_of_text rt s of None \<Rightarrow> Inl (ValueError s) | Some x \<Rightarrow> Inr x)"

fun lit_getitem :: "pylit \<Rightarrow> string \<Rightarrow> py_error + pyfloat" where
  "lit_getitem (LitDict d) k = dict_getitem d k"
| "lit_getitem LitOther k = Inl TypeError"

section \<open>The Model\<close>

type_synonym energies = "pyfloat list"

text \<open>
  Modelled from the spec: the class \<^verbatim>\<open>Model\<close> (module \<^verbatim>\<open>model\<close>) is not among the
  sources. Following sections 3 and 4.4 of the specification, a model owns its
  hyperparameters, weights and steepness, its position range, and the energy vectors it was
  given: \<^verbatim>\<open>addMacrostateData\<close> stores the vector in the slot of (macrostate, position),
  overwriting any prior value; \<^verbatim>\<open>addMicrostateData\<close> retains the vectors of one
  (macrostate, position) individually. The fields are the constructor's arguments in the
  order \<^verbatim>\<open>Optimizer.py\<close> passes them.
\<close>

record model =
  ensembleSize :: pyval
  backrubTemp :: pyval
  boltzmannTemp :: pyval
  weights :: "int list option"
  steepness :: int
  model_nPositions :: int
  model_minPosition :: int
  useMicrostateData :: bool
  model_positionMap :: "(int \<rightharpoonup> int) option"
  macrostateData :: "(int \<times> int) \<rightharpoonup> energies"
  microstateData :: "(int \<times> int) \<rightharpoonup> energies list"

definition Model ::
  "pyval \<Rightarrow> pyval \<Rightarrow> pyval \<Rightarrow> int list option \<Rightarrow> int \<Rightarrow> int \<Rightarrow> int \<Rightarrow> bool \<Rightarrow>
   (int \<rightharpoonup> int) option \<Rightarrow> model" where
  "Model ensembleS backrubT boltzmanT w steep nPos minPos micro pmap =
     \<lparr> ensembleSize = ensembleS, backrubTemp = backrubT, boltzmannTemp = boltzmanT,
       weights = w, steepness = steep, model_nPositions = nPos, model_minPosition = minPos,
       useMicrostateData = micro, model_positionMap = pmap,
       macrostateData = Map.empty, microstateData = Map.empty \<rparr>"

definition addMacrostateData :: "model \<Rightarrow> int \<Rightarrow> int \<Rightarrow> energies \<Rightarrow> model" where
  "addMacrostateData m macrostate position e =
     m\<lparr> macrostateData := (macrostateData m)((macrostate, position) \<mapsto> e) \<rparr>"

definition addMicrostateData :: "model \<Rightarrow> int \<Rightarrow> int \<Rightarrow> energies \<Rightarrow> model" where
  "addMicrostateData m macrostate position e =
     m\<lparr> microstateData := (microstateData m)((macrostate, position) \<mapsto>
          (case microstateData m (macrostate, position) of
             None \<Rightarrow> [e]
           | Some es \<Rightarrow> es @ [e])) \<rparr>"

text \<open>The positions of the energy records a model holds.\<close>

definition stored_positions :: "model \<Rightarrow> int set" where
  "stored_positions m = snd ` (dom (macrostateData m) \<union> dom (microstateData m))"

section \<open>The Optimizer\<close>

text \<open>
  Frequencies are NumPy doubles. Counts and quotients of counts are modelled exactly, as
  rationals; a division by zero gives \<open>nan\<close> (for \<open>0/0\<close>) or \<open>inf\<close> with a warning, as
  NumPy's default error state has it.
\<close>

datatype npfloat = Val rat | Inf | Nan

definition np_divide :: "nat \<Rightarrow> nat \<Rightarrow> npfloat" where
  "np_divide c n = (if n = 0 then (if c = 0 then Nan else Inf) else Val (of_nat c / of_nat n))"

record optimizer =
  models :: "string \<rightharpoonup> model"
  nPositions :: int
  contiguousPositions :: bool
  positionMap :: "(int \<rightharpoonup> int) option"
  minPosition :: int
  targetFrequencies :: "npfloat list list"
  macStateToIndex :: "string \<rightharpoonup> int"
  nMacrostates :: int
  continuousBoltzmann :: bool
  targetFreqsRead :: bool

text \<open>
  The constructor. The enum of macrostates (module \<^verbatim>\<open>enumeration\<close>, not among the
  sources) enters as the dictionary and the size the constructor reads off it. The initial
  zero-dimensional array of target frequencies is represented by the empty matrix.
\<close>

definition Optimizer :: "(string \<rightharpoonup> int) \<Rightarrow> int \<Rightarrow> bool \<Rightarrow> bool \<Rightarrow> optimizer" where
  "Optimizer macrostates n continuousB contiguousP =
     \<lparr> models = Map.empty, nPositions = 0, contiguousPositions = contiguousP,
       positionMap = (if \<not> contiguousP then Some Map.empty else None),
       minPosition = 0, targetFrequencies = [],
       macStateToIndex = macrostates, nMacrostates = n,
       continuousBoltzmann = continuousB, targetFreqsRead = False \<rparr>"

subsection \<open>Parameter IDs and lookup\<close>

definition calcParamsID :: "pyval \<Rightarrow> pyval \<Rightarrow> pyval \<Rightarrow> string" where
  "calcParamsID param1 param2 param3 =
     py_str param1 @ '' '' @ py_str param2 @ '' '' @ py_str param3"

text \<open>
  \<^verbatim>\<open>getModelByParams\<close> returns its result together with the optimizer it leaves behind.
\<close>

definition getModelByParams ::
  "optimizer \<Rightarrow> pyval \<Rightarrow> pyval \<Rightarrow> pyval \<Rightarrow> (py_error + model) \<times> optimizer" where
  "getModelByParams self param1 param2 param3 =
     (dict_getitem (models self) (calcParamsID param1 param2 param3), self)"

text \<open>A \<^verbatim>\<open>for\<close> loop over a list whose body may raise, with the loop's variables as state.\<close>

fun py_foreach :: "('s \<Rightarrow> 'a \<Rightarrow> py_error + 's) \<Rightarrow> 's \<Rightarrow> 'a list \<Rightarrow> py_error + 's" where
  "py_foreach body s [] = Inr s"
| "py_foreach body s (x # xs) =
     (case body s x of
        Inl e \<Rightarrow> Inl e
      | Inr s' \<Rightarrow> py_foreach body s' xs)"

subsection \<open>readTargetFrequencies\<close>

definition resToIndex :: "char \<rightharpoonup> nat" where
  "resToIndex = map_of
     [(CHR ''A'', 0), (CHR ''C'', 1), (CHR ''D'', 2), (CHR ''E'', 3), (CHR ''F'', 4),
      (CHR ''G'', 5), (CHR ''H'', 6), (CHR ''I'', 7), (CHR ''K'', 8), (CHR ''L'', 9),
      (CHR ''M'', 10), (CHR ''N'', 11), (CHR ''P'', 12), (CHR ''Q'', 13), (CHR ''R'', 14),
      (CHR ''S'', 15), (CHR ''T'', 16), (CHR ''V'', 17), (CHR ''W'', 18), (CHR ''Y'', 19)]"

text \<open>
  Lines 104 to 109 of \<^verbatim>\<open>Optimizer.py\<close>: after the first line is skipped, lines are
  appended to \<^verbatim>\<open>entry\<close> until one starts with the header mark. At the end of the file
  \<^verbatim>\<open>readline\<close> returns the empty string, whose first character does not exist.
\<close>

fun first_entry :: "string \<Rightarrow> text_file \<Rightarrow> py_error + string" where
  "first_entry entry [] =
     (case py_getitem ([] :: string) 0 of
        Inl e \<Rightarrow> Inl e
      | Inr c \<Rightarrow> Inr entry)"
| "first_entry entry (thisLine # rest) =
     (case py_getitem thisLine 0 of
        Inl e \<Rightarrow> Inl e
      | Inr c \<Rightarrow> if c \<noteq> CHR ''>'' then first_entry (entry @ thisLine) rest else Inr entry)"

text \<open>
  Lines 127 to 134: the residues of one entry are added to the counts. The array of target
  frequencies holds the counts until they are normalised.
\<close>

fun add_entry ::
  "string \<Rightarrow> nat list \<Rightarrow> nat list list \<times> nat list \<Rightarrow> py_error + nat list list \<times> nat list" where
  "add_entry thisEntry [] acc = Inr acc"
| "add_entry thisEntry (i # rest) (tf, nEntries) =
     (case py_getitem thisEntry (int i) of
        Inl e \<Rightarrow> Inl e
      | Inr c \<Rightarrow>
          if c \<noteq> CHR ''-'' then
            (case resToIndex c of
               None \<Rightarrow> add_entry thisEntry rest (tf, nEntries)
             | Some r \<Rightarrow>
                 add_entry thisEntry rest
                   (tf[i := (tf ! i)[r := tf ! i ! r + 1]], nEntries[i := nEntries ! i + 1]))
          else add_entry thisEntry rest (tf, nEntries))"

text \<open>
  Lines 122 to 138: the loop over all lines of the file, with \<^verbatim>\<open>thisEntry\<close> and the two
  arrays as state. What \<^verbatim>\<open>thisEntry\<close> holds when the file ends is not used.
\<close>

fun read_entries ::
  "nat \<Rightarrow> text_file \<Rightarrow> string \<Rightarrow> nat list list \<times> nat list \<Rightarrow> py_error + nat list list \<times> nat list" where
  "read_entries nPos [] thisEntry acc = Inr acc"
| "read_entries nPos (line # rest) thisEntry acc =
     (case py_getitem line 0 of
        Inl e \<Rightarrow> Inl e
      | Inr c \<Rightarrow>
          if c = CHR ''>'' then
            (if thisEntry = [] then read_entries nPos rest thisEntry acc
             else
               (case add_entry thisEntry [0..<nPos] acc of
                  Inl e \<Rightarrow> Inl e
                | Inr acc' \<Rightarrow> read_entries nPos rest [] acc'))
          else read_entries nPos rest (thisEntry @ line) acc)"

text \<open>Lines 140 to 142: counts to frequencies.\<close>

definition counts_to_frequencies :: "nat list list \<Rightarrow> nat list \<Rightarrow> npfloat list list" where
  "counts_to_frequencies tf nEntries =
     map (\<lambda>(row, n). map (\<lambda>c. np_divide c n) row) (zip tf nEntries)"

text \<open>
  Lines 104 to 142 together: the number of positions, the counts and the numbers of counted
  entries per position. The test \<^verbatim>\<open>entry[-2] == 0\<close> compares a character with the
  integer 0 and is false whenever the subscript exists.
\<close>

definition count_alignment :: "text_file \<Rightarrow> py_error + int \<times> nat list list \<times> nat list" where
  "count_alignment source =
     py_then (first_entry [] (drop 1 source)) (\<lambda>entry.
     let nPos = int (length entry) - 1 in
     py_then (py_getitem entry (- 2)) (\<lambda>c.
     py_then (read_entries (nat nPos) source []
                (replicate (nat nPos) (replicate 20 0), replicate (nat nPos) 0)) (\<lambda>(tf, nEntries).
     Inr (nPos, tf, nEntries))))"

text \<open>\<^verbatim>\<open>positionReindexerFASTA\<close>: the loop state is the list, the counter and the position map.\<close>

fun positionReindexerFASTA_loop ::
  "py_runtime \<Rightarrow> int list \<Rightarrow> int \<Rightarrow> (int \<rightharpoonup> int) option \<Rightarrow> text_file \<Rightarrow>
   py_error + int list \<times> (int \<rightharpoonup> int) option" where
  "positionReindexerFASTA_loop rt index i pmap [] = Inr (index, pmap)"
| "positionReindexerFASTA_loop rt index i pmap (line # rest) =
     (let entries = split_chr CHR '' '' line in
      case py_then (py_getitem entries 0) (py_int rt) of
        Inl e \<Rightarrow> Inl e
      | Inr a \<Rightarrow>
          (case py_then (py_getitem entries 2) (\<lambda>e2. py_int rt (strip_chr CHR 0x0A e2)) of
             Inl e \<Rightarrow> Inl e
           | Inr k \<Rightarrow>
               (case pmap of
                  None \<Rightarrow> Inl TypeError
                | Some pm \<Rightarrow>
                    positionReindexerFASTA_loop rt (index @ [a]) (i + 1) (Some (pm(k \<mapsto> i))) rest)))"

definition positionReindexerFASTA ::
  "py_runtime \<Rightarrow> optimizer \<Rightarrow> text_file \<Rightarrow> py_error + int list \<times> optimizer" where
  "positionReindexerFASTA rt self data =
     py_then (positionReindexerFASTA_loop rt [] 0 (positionMap self) data) (\<lambda>(indices, pmap).
     Inr (indices, self\<lparr>positionMap := pmap\<rparr>))"

text \<open>Lines 152 and 153: the rows picked by the indices, with NumPy's subscripts.\<close>

fun pick_rows :: "npfloat list list \<Rightarrow> int list \<Rightarrow> py_error + npfloat list list" where
  "pick_rows tf [] = Inr []"
| "pick_rows tf (ix # rest) =
     (case py_getitem tf ix of
        Inl e \<Rightarrow> Inl e
      | Inr row \<Rightarrow>
          (case pick_rows tf rest of
             Inl e \<Rightarrow> Inl e
           | Inr rows \<Rightarrow> Inr (row # rows)))"

text \<open>
  \<^verbatim>\<open>readTargetFrequencies(source, posPicker)\<close>: the result is the optimizer after the
  call, whose \<open>targetFrequencies\<close> is the array returned.
\<close>

definition readTargetFrequencies ::
  "py_runtime \<Rightarrow> optimizer \<Rightarrow> text_file \<Rightarrow> text_file option \<Rightarrow> py_error + optimizer" where
  "readTargetFrequencies rt self source posPicker =
     py_then (count_alignment source) (\<lambda>(nPos, tf, nEntries).
     let self1 = self\<lparr>nPositions := nPos,
                      targetFrequencies := counts_to_frequencies tf nEntries\<rparr> in
     case posPicker of
       None \<Rightarrow> Inr (self1\<lparr>targetFreqsRead := True\<rparr>)
     | Some data \<Rightarrow>
         py_then (positionReindexerFASTA rt (self1\<lparr>contiguousPositions := False\<rparr>) data)
           (\<lambda>(indices, self2).
         py_then (pick_rows (targetFrequencies self2) indices) (\<lambda>freqs.
         Inr (self2\<lparr>nPositions := int (length indices), targetFrequencies := freqs,
                    targetFreqsRead := True\<rparr>))))"

subsection \<open>readData\<close>

definition indexToRes :: "string list" where
  "indexToRes =
     [''A'', ''C'', ''D'', ''E'', ''F'', ''G'', ''H'', ''I'', ''K'', ''L'',
      ''M'', ''N'', ''P'', ''Q'', ''R'', ''S'', ''T'', ''V'', ''W'', ''Y'']"

text \<open>Lines 228 to 231: the dict of energies becomes an array in the order of the residues.\<close>

fun energy_array :: "pylit \<Rightarrow> string list \<Rightarrow> py_error + energies" where
  "energy_array energies [] = Inr []"
| "energy_array energies (res # rest) =
     (case lit_getitem energies res of
        Inl e \<Rightarrow> Inl e
      | Inr v \<Rightarrow>
          (case energy_array energies rest of
             Inl e \<Rightarrow> Inl e
           | Inr vs \<Rightarrow> Inr (v # vs)))"

text \<open>Lines 217 to 222: the text of the Boltzmann temperature.\<close>

definition boltzmann_of_text :: "py_runtime \<Rightarrow> string \<Rightarrow> py_error + pyfloat" where
  "boltzmann_of_text rt boltzmanT =
     (if boltzmanT = ''min'' then Inr float_zero
      else if boltzmanT = ''mean'' then Inr float_minus_one
      else py_float rt boltzmanT)"

text \<open>
  Lines 192 to 203: the fields of one data line. The macrostate is looked up and the
  position and the ensemble size are converted; the two temperatures stay text.
\<close>

record macrostate_fields =
  f_macrostate :: int
  f_backrubT :: string
  f_ensembleS :: int
  f_boltzmanT :: string
  f_position :: int
  f_energies :: pylit

definition readData_fields ::
  "py_runtime \<Rightarrow> optimizer \<Rightarrow> string \<Rightarrow> py_error + macrostate_fields" where
  "readData_fields rt self line =
     (let entries = split_chr TAB line in
      py_then (py_getitem entries 0) (\<lambda>macrostate.
      py_then (py_getitem entries 1) (\<lambda>backrubT.
      py_then (py_getitem entries 2) (\<lambda>ensembleS.
      py_then (py_getitem entries 3) (\<lambda>boltzmanT.
      py_then (py_getitem entries 4) (\<lambda>position.
      py_then (py_getitem entries 5) (\<lambda>literal.
      py_then (literal_eval rt literal) (\<lambda>energies.
      py_then (dict_getitem (macStateToIndex self) macrostate) (\<lambda>macrostate.
      py_then (py_int rt position) (\<lambda>position.
      py_then (py_int rt ensembleS) (\<lambda>ensembleS.
      Inr \<lparr> f_macrostate = macrostate, f_backrubT = backrubT, f_ensembleS = ensembleS,
            f_boltzmanT = boltzmanT, f_position = position, f_energies = energies \<rparr>)))))))))))"

text \<open>
  Lines 224 to 239: the record goes into the model of its Parameter ID, which is created
  when the cache has none. The two trailing constructor arguments that \<^verbatim>\<open>readData\<close> does
  not pass are taken as no microstate data and no position map.
\<close>

definition readData_store ::
  "optimizer \<Rightarrow> int \<Rightarrow> pyfloat \<Rightarrow> int \<Rightarrow> pyfloat \<Rightarrow> int \<Rightarrow> pylit \<Rightarrow> py_error + optimizer" where
  "readData_store self macrostate backrubT ensembleS boltzmanT position energies =
     (let ID = calcParamsID (PyFloat backrubT) (PyInt ensembleS) (PyFloat boltzmanT) in
      py_then (energy_array energies indexToRes) (\<lambda>energies.
      let m = (case models self ID of
                 Some existing \<Rightarrow> existing
               | None \<Rightarrow>
                   Model (PyInt ensembleS) (PyFloat backrubT) (PyFloat boltzmanT)
                     (Some [0, 0, 0, 0]) 1 (nPositions self) (minPosition self) False None)
      in Inr (self\<lparr>models := (models self)
                (ID \<mapsto> addMacrostateData m macrostate position energies)\<rparr>)))"

text \<open>
  Lines 192 to 239: the body of the loop for one data line. The state is the flag
  \<^verbatim>\<open>isFirstEntry\<close> and the optimizer. The position of the first entry becomes
  \<^verbatim>\<open>minPosition\<close> (lines 207 to 209). A line whose position is outside the window is
  left (\<^verbatim>\<open>continue\<close>) before its temperatures are converted.
\<close>

definition record_minPosition :: "bool \<Rightarrow> optimizer \<Rightarrow> int \<Rightarrow> optimizer" where
  "record_minPosition isFirstEntry self position =
     (if isFirstEntry then self\<lparr>minPosition := position\<rparr> else self)"

definition readData_row ::
  "py_runtime \<Rightarrow> bool \<times> optimizer \<Rightarrow> string \<Rightarrow> py_error + bool \<times> optimizer" where
  "readData_row rt st line =
     py_then (readData_fields rt (snd st) line) (\<lambda>f.
     let position = f_position f;
         self = record_minPosition (fst st) (snd st) position in
     if position < minPosition self \<or> position \<ge> minPosition self + nPositions self
     then Inr (False, self)
     else
       py_then (py_float rt (f_backrubT f)) (\<lambda>backrubT.
       py_then (boltzmann_of_text rt (f_boltzmanT f)) (\<lambda>boltzmanT.
       py_then (readData_store self (f_macrostate f) backrubT (f_ensembleS f) boltzmanT
                  position (f_energies f)) (\<lambda>self'.
       Inr (False, self')))))"

definition readData :: "py_runtime \<Rightarrow> optimizer \<Rightarrow> text_file \<Rightarrow> py_error + optimizer" where
  "readData rt self source =
     py_then (py_foreach (readData_row rt)
                (True, self\<lparr>models := Map.empty, minPosition := 65535\<rparr>) (drop 1 source))
       (\<lambda>st. Inr (snd st))"

subsection \<open>readMicrostateData\<close>

text \<open>Lines 281 to 287: the fields of one data line; only the position is converted.\<close>

record microstate_fields =
  g_macrostate :: string
  g_backrubT :: string
  g_position :: int
  g_energies :: pylit

definition readMicrostateData_fields ::
  "py_runtime \<Rightarrow> string \<Rightarrow> py_error + microstate_fields" where
  "readMicrostateData_fields rt line =
     (let entries = split_chr TAB line in
      py_then (py_getitem entries 0) (\<lambda>macrostate.
      py_then (py_getitem entries 1) (\<lambda>backrubT.
      py_then (py_getitem entries 2) (\<lambda>position.
      py_then (py_int rt position) (\<lambda>position.
      py_then (py_getitem entries 4) (\<lambda>literal.
      py_then (literal_eval rt literal) (\<lambda>energies.
      Inr \<lparr> g_macrostate = macrostate, g_backrubT = backrubT, g_position = position,
            g_energies = energies \<rparr>)))))))"

text \<open>Lines 307 to 313: the record goes into the model keyed by the backrub temperature alone.\<close>

definition readMicrostateData_store ::
  "optimizer \<Rightarrow> int \<Rightarrow> pyfloat \<Rightarrow> int \<Rightarrow> energies \<Rightarrow> optimizer" where
  "readMicrostateData_store self macrostate backrubT position energies =
     (let ID = calcParamsID (PyFloat backrubT) PyNone PyNone;
          m = (case models self ID of
                 Some existing \<Rightarrow> existing
               | None \<Rightarrow>
                   Model (PyInt 0) (PyFloat backrubT) (PyInt 0) None 0
                     (nPositions self) (minPosition self) True (positionMap self))
      in self\<lparr>models := (models self)
                (ID \<mapsto> addMicrostateData m macrostate position energies)\<rparr>)"

text \<open>
  Lines 281 to 313: the body of the loop for one data line. The state is \<^verbatim>\<open>maxPos\<close> and
  the optimizer.
\<close>

definition readMicrostateData_row ::
  "py_runtime \<Rightarrow> int \<times> optimizer \<Rightarrow> string \<Rightarrow> py_error + int \<times> optimizer" where
  "readMicrostateData_row rt st line =
     py_then (readMicrostateData_fields rt line) (\<lambda>f.
     let maxPos = fst st; self = snd st; position = g_position f in
     if position < minPosition self \<or> position \<ge> minPosition self + nPositions self
     then Inr (maxPos, self)
     else
       py_then (py_float rt (g_backrubT f)) (\<lambda>backrubT.
       py_then (dict_getitem (macStateToIndex self) (g_macrostate f)) (\<lambda>macrostate.
       py_then (energy_array (g_energies f) indexToRes) (\<lambda>energies.
       Inr (if position > maxPos then position else maxPos,
            readMicrostateData_store self macrostate backrubT position energies)))))"

definition readMicrostateData ::
  "py_runtime \<Rightarrow> optimizer \<Rightarrow> text_file \<Rightarrow> int \<Rightarrow> py_error + optimizer" where
  "readMicrostateData rt self source minPos =
     py_then (py_foreach (readMicrostateData_row rt)
                (0, self\<lparr>models := Map.empty, minPosition := minPos\<rparr>) (drop 1 source))
       (\<lambda>st. let maxPos = fst st; self' = snd st in
             Inr (if contiguousPositions self' then self'\<lparr>nPositions := maxPos - minPos + 1\<rparr>
                  else self'))"

section \<open>positionReindexer\<close>

text \<open>
  The loop of \<^verbatim>\<open>positionReindexer\<close> over the lines of the indices file, with the
  list \<^verbatim>\<open>indices\<close> and the counter \<^verbatim>\<open>n\<close> as loop state.
\<close>

fun positionReindexer_loop ::
  "int list \<Rightarrow> int \<Rightarrow> text_file \<Rightarrow> py_error + (int list \<times> int)" where
  "positionReindexer_loop indices n [] = Inr (indices, n)"
| "positionReindexer_loop indices n (line # rest) =
     (let entries = split_chr CHR '' '' line in
      case py_getitem entries 2 of
        Inl e \<Rightarrow> Inl e
      | Inr e2 \<Rightarrow>
          (let i = strip_chr CHR 0x0A e2 in
           case list_setitem indices (SubStr i) n of
             Inl e \<Rightarrow> Inl e
           | Inr indices' \<Rightarrow> positionReindexer_loop indices' (n + 1) rest))"

definition positionReindexer :: "text_file \<Rightarrow> py_error + int list" where
  "positionReindexer data =
     (case positionReindexer_loop [] 0 data of
        Inl e \<Rightarrow> Inl e
      | Inr (indices, n) \<Rightarrow> list_setitem indices (SubStr ''nPos'') n)"

section \<open>Sample inputs\<close>

text \<open>
  The alignment of the specification's example, one header line before each sequence, and
  the same file continued by one more header line.
\<close>

definition example_alignment :: text_file where
  "example_alignment =
     [''>NULL'' @ NL, ''AC-D'' @ NL, ''>seq2'' @ NL, ''AC-E'' @ NL, ''>seq3'' @ NL, ''A-ED'' @ NL]"

definition example_alignment_closed :: text_file where
  "example_alignment_closed = example_alignment @ [''>end'' @ NL]"


text \<open>
  What the conversions of the runtime return on the texts of the sample tables: a literal
  that gives every residue the energy 0.0, and a few numbers.
\<close>

definition sample_literal :: string where
  "sample_literal =
     ''{'' @ concat (map (\<lambda>res. [CHR 0x27] @ res @ [CHR 0x27] @ '': 0.0, '') indexToRes) @ ''}''"

definition sample_runtime :: py_runtime where
  "sample_runtime =
     \<lparr> int_of_text = map_of
         [(''1'', 1), (''2'', 2), (''3'', 3), (''4'', 4), (''9'', 9), (''50'', 50)],
       float_of_text = map_of
         [(''0.9'', Finite False [9] 0), (''1.8'', Finite False [1, 8] 1),
          (''0.0'', float_zero), (''-0.0'', Finite True [0] 1)],
       literal_eval = (\<lambda>s.
         if strip_chr CHR 0x0A s = sample_literal
         then Inr (LitDict (map_of (map (\<lambda>res. (res, float_zero)) indexToRes)))
         else Inl SyntaxError) \<rparr>"

definition sample_optimizer :: optimizer where
  "sample_optimizer = Optimizer [''A'' \<mapsto> 0, ''B'' \<mapsto> 1] 2 False True"

text \<open>
  Lines of a macrostate table and of a microstate table with the sample literal, and sample
  tables. The optimizer that reads them has read the example alignment: it has 4 positions.
\<close>

definition macrostate_line :: "string \<Rightarrow> string \<Rightarrow> string \<Rightarrow> string \<Rightarrow> string \<Rightarrow> string" where
  "macrostate_line macrostate backrubT ensembleS boltzmanT position =
     macrostate @ [TAB] @ backrubT @ [TAB] @ ensembleS @ [TAB] @ boltzmanT @ [TAB] @ position @
     [TAB] @ sample_literal @ NL"

definition microstate_line :: "string \<Rightarrow> string \<Rightarrow> string \<Rightarrow> string" where
  "microstate_line macrostate backrubT position =
     macrostate @ [TAB] @ backrubT @ [TAB] @ position @ [TAB] @ ''bb1'' @ [TAB] @ sample_literal @ NL"

definition sample_table :: text_file where
  "sample_table =
     [''header'' @ NL,
      macrostate_line ''A'' ''0.9'' ''50'' ''mean'' ''2'',
      macrostate_line ''A'' ''0.9'' ''50'' ''mean'' ''1'',
      macrostate_line ''B'' ''0.9'' ''50'' ''min'' ''3'',
      macrostate_line ''A'' ''1.8'' ''50'' ''0.0'' ''4'']"

text \<open>A table whose last line is outside the window and has a Boltzmann temperature that is no number.\<close>

definition unread_text_table :: text_file where
  "unread_text_table =
     [''header'' @ NL,
      macrostate_line ''A'' ''0.9'' ''50'' ''mean'' ''2'',
      macrostate_line ''A'' ''0.9'' ''50'' ''abc'' ''9'']"

text \<open>The same table with that line inside the window.\<close>

definition bad_text_table :: text_file where
  "bad_text_table =
     [''header'' @ NL,
      macrostate_line ''A'' ''0.9'' ''50'' ''mean'' ''2'',
      macrostate_line ''A'' ''0.9'' ''50'' ''abc'' ''3'']"

definition sample_microstates :: text_file where
  "sample_microstates =
     [''header'' @ NL,
      microstate_line ''A'' ''0.9'' ''2'',
      microstate_line ''A'' ''0.9'' ''2'',
      microstate_line ''B'' ''1.8'' ''3'',
      microstate_line ''B'' ''0.9'' ''9'']"

definition sample_profiled :: optimizer where
  "sample_profiled =
     projr (readTargetFrequencies sample_runtime sample_optimizer example_alignment None)"

section \<open>Notions used in the statements\<close>



text \<open>Lines of a file none of which starts a new entry.\<close>

definition no_header :: "text_file \<Rightarrow> bool" where
  "no_header ls \<longleftrightarrow> list_all (\<lambda>l. l \<noteq> [] \<and> hd l \<noteq> CHR ''>'') ls"

subsection \<open>The window of positions\<close>

definition in_window :: "optimizer \<Rightarrow> int \<Rightarrow> bool" where
  "in_window self p \<longleftrightarrow> minPosition self \<le> p \<and> p < minPosition self + nPositions self"

text \<open>Every record stored in a model of the cache has its position in the window.\<close>

definition stored_in_window :: "optimizer \<Rightarrow> bool" where
  "stored_in_window self \<longleftrightarrow>
     (\<forall>m \<in> ran (models self). \<forall>p \<in> stored_positions m. in_window self p)"

text \<open>The invariant of the loop of \<^verbatim>\<open>readData\<close>.\<close>

definition readData_inv :: "int \<Rightarrow> bool \<times> optimizer \<Rightarrow> bool" where
  "readData_inv n st \<longleftrightarrow>
     nPositions (snd st) = n \<and> (fst st \<longrightarrow> models (snd st) = Map.empty) \<and>
     stored_in_window (snd st)"

text \<open>The state of the loop of \<^verbatim>\<open>readData\<close> once the first entry has set \<^verbatim>\<open>minPosition\<close>.\<close>

definition after_first :: "int \<Rightarrow> (string \<rightharpoonup> int) \<Rightarrow> bool \<times> optimizer \<Rightarrow> bool" where
  "after_first p0 msi st \<longleftrightarrow> \<not> fst st \<and> minPosition (snd st) = p0 \<and> macStateToIndex (snd st) = msi"

subsection \<open>The cache after a microstate load\<close>

text \<open>Every key of the cache is the Parameter ID of a backrub temperature, \<^verbatim>\<open>None\<close> and \<^verbatim>\<open>None\<close>.\<close>

definition keyed_by_backrub :: "optimizer \<Rightarrow> bool" where
  "keyed_by_backrub self \<longleftrightarrow>
     (\<forall>ID \<in> dom (models self). \<exists>b. ID = calcParamsID (PyFloat b) PyNone PyNone)"


text \<open>The invariant of the loop of \<^verbatim>\<open>readMicrostateData\<close>; the first component of the state is \<^verbatim>\<open>maxPos\<close>.\<close>

definition micro_inv :: "int \<Rightarrow> int \<Rightarrow> (string \<rightharpoonup> int) \<Rightarrow> int \<times> optimizer \<Rightarrow> bool" where
  "micro_inv n minPos msi st \<longleftrightarrow>
     nPositions (snd st) = n \<and> minPosition (snd st) = minPos \<and> macStateToIndex (snd st) = msi \<and>
     stored_in_window (snd st) \<and> keyed_by_backrub (snd st) \<and>
     (\<forall>m \<in> ran (models (snd st)). \<forall>p \<in> stored_positions m. p \<le> fst st)"

subsection \<open>Reading a value back from its string\<close>

definition is_digit :: "char \<Rightarrow> bool" where
  "is_digit c \<longleftrightarrow> c \<in> set ''0123456789''"

text \<open>The characters of the string of an \<^verbatim>\<open>int\<close> or a \<^verbatim>\<open>float\<close>, and of a finite one.\<close>

definition is_number_char :: "char \<Rightarrow> bool" where
  "is_number_char c \<longleftrightarrow> is_digit c \<or> c \<in> set ''-+.einfa''"

definition is_finite_char :: "char \<Rightarrow> bool" where
  "is_finite_char c \<longleftrightarrow> is_digit c \<or> c \<in> set ''-+.e''"

definition digit_val :: "char \<Rightarrow> nat" where
  "digit_val c = length (takeWhile (\<lambda>x. x \<noteq> c) ''0123456789'')"

definition nat_of_string :: "string \<Rightarrow> nat" where
  "nat_of_string s = foldl (\<lambda>a c. 10 * a + digit_val c) 0 s"

definition int_of_string :: "string \<Rightarrow> int" where
  "int_of_string s =
     (if hd s = CHR ''-'' then - int (nat_of_string (tl s))
      else if hd s = CHR ''+'' then int (nat_of_string (tl s))
      else int (nat_of_string s))"

text \<open>
  The digits and the position of the point of a string in positional format: the digits
  before and after the point, without the zeros at both ends; the point moves left by the
  number of zeros dropped in front.
\<close>

definition decode_fixed :: "string \<Rightarrow> nat list \<times> int" where
  "decode_fixed s =
     (let ip = takeWhile (\<lambda>c. c \<noteq> CHR ''.'') s;
          fp = tl (dropWhile (\<lambda>c. c \<noteq> CHR ''.'') s);
          every = ip @ fp;
          sig = dropWhile (\<lambda>c. c = CHR ''0'') every
      in if sig = [] then ([0], 1)
         else (map digit_val (rev (dropWhile (\<lambda>c. c = CHR ''0'') (rev sig))),
               int (length ip) - int (length (takeWhile (\<lambda>c. c = CHR ''0'') every))))"

text \<open>The same of a string in scientific format.\<close>

definition decode_sci :: "string \<Rightarrow> nat list \<times> int" where
  "decode_sci s =
     (let m = takeWhile (\<lambda>c. c \<noteq> CHR ''e'') s;
          ex = tl (dropWhile (\<lambda>c. c \<noteq> CHR ''e'') s)
      in (map digit_val (filter (\<lambda>c. c \<noteq> CHR ''.'') m), int_of_string ex + 1))"

definition decode_finite :: "string \<Rightarrow> nat list \<times> int" where
  "decode_finite s = (if CHR ''e'' \<in> set s then decode_sci s else decode_fixed s)"

definition decode_float :: "string \<Rightarrow> pyfloat" where
  "decode_float s =
     (if s = ''nan'' then NaN
      else if s = ''inf'' then Infinity False
      else if s = ''-inf'' then Infinity True
      else if hd s = CHR ''-'' then Finite True (fst (decode_finite (tl s))) (snd (decode_finite (tl s)))
      else Finite False (fst (decode_finite s)) (snd (decode_finite s)))"

definition decode_val :: "string \<Rightarrow> pyval" where
  "decode_val s =
     (if s = ''None'' then PyNone
      else if CHR ''.'' \<in> set s \<or> CHR ''e'' \<in> set s \<or> CHR ''n'' \<in> set s then PyFloat (decode_float s)
      else PyInt (int_of_string s))"

section \<open>Auxiliary lemmas\<close>


lemma py_then_Inl [simp]: "py_then (Inl e) f = Inl e"
  by (simp add: py_then_def)

lemma py_then_Inr [simp]: "py_then (Inr x) f = f x"
  by (simp add: py_then_def)

lemma py_then_eq_Inr: "py_then r f = Inr y \<longleftrightarrow> (\<exists>x. r = Inr x \<and> f x = Inr y)"
  by (cases r) simp_all


section \<open>Lookup of a model\<close>

text \<open>
  Claim C3: \<^verbatim>\<open>getModelByParams\<close> returns the model stored under the Parameter ID of
  the triple when there is one, raises \<open>KeyError\<close>, a \<open>LookupError\<close>, when there is
  none, and leaves the optimizer, and with it the cache, as it was.
\<close>

theorem getModelByParams_lookup:
  "fst (getModelByParams self param1 param2 param3) =
     (case models self (calcParamsID param1 param2 param3) of
        Some m \<Rightarrow> Inr m
      | None \<Rightarrow> Inl (KeyError (calcParamsID param1 param2 param3))) \<and>
   is_LookupError (KeyError (calcParamsID param1 param2 param3)) \<and>
   snd (getModelByParams self param1 param2 param3) = self"
  by (simp add: getModelByParams_def dict_getitem_def)

section \<open>The example alignment\<close>

text \<open>
  Claim C7, as stated, fails: in the example alignment the third column holds \<open>-\<close>,
  \<open>-\<close> and \<open>E\<close>. With the file as it stands the third sequence is not counted and
  the row of position 3 is \<open>nan\<close>; with a header line after the third sequence the row
  is E = 1. In neither case is it E = 0.5 and D = 0.5.
\<close>

theorem example_alignment_position3_counterexample:
  "map_sum id (\<lambda>s. targetFrequencies s ! 2)
     (readTargetFrequencies sample_runtime sample_optimizer example_alignment None) =
   Inr [Nan, Nan, Nan, Nan, Nan, Nan, Nan, Nan, Nan, Nan,
        Nan, Nan, Nan, Nan, Nan, Nan, Nan, Nan, Nan, Nan] \<and>
   map_sum id (\<lambda>s. (targetFrequencies s ! 2 ! 2, targetFrequencies s ! 2 ! 3))
     (readTargetFrequencies sample_runtime sample_optimizer example_alignment_closed None) \<noteq>
   Inr (Val (1 / 2), Val (1 / 2))"
  by code_simp

text \<open>
  Claim C7, amended: from the alignment of the three sequences, each followed by a header
  line, position 3 (column 2) gets E = 1 and 0 for all other residues, and position 2
  (column 1) gets C = 1 and 0 for all other residues: only residues that are not gaps are
  counted in a column.
\<close>

theorem example_alignment_frequencies:
  "map_sum id (\<lambda>s. (targetFrequencies s ! 2, targetFrequencies s ! 1))
     (readTargetFrequencies sample_runtime sample_optimizer example_alignment_closed None) =
   Inr ([Val 0, Val 0, Val 0, Val 1, Val 0, Val 0, Val 0, Val 0, Val 0, Val 0,
         Val 0, Val 0, Val 0, Val 0, Val 0, Val 0, Val 0, Val 0, Val 0, Val 0],
        [Val 0, Val 1, Val 0, Val 0, Val 0, Val 0, Val 0, Val 0, Val 0, Val 0,
         Val 0, Val 0, Val 0, Val 0, Val 0, Val 0, Val 0, Val 0, Val 0, Val 0])"
  by code_simp

section \<open>Target frequencies\<close>

subsection \<open>Counting the entries of an alignment\<close>




















subsection \<open>The lines after the last header\<close>

lemma py_getitem_0: "l \<noteq> [] \<Longrightarrow> py_getitem l 0 = Inr (hd l)"
  by (cases l) (simp_all add: py_getitem_def py_index_def)

lemma first_entry_no_header: "no_header ls \<Longrightarrow> first_entry entry ls = Inl IndexError"
proof (induction ls arbitrary: entry)
  case Nil
  then show ?case by (simp add: py_getitem_def py_index_def)
next
  case (Cons l ls)
  then have "py_getitem l 0 = Inr (hd l)" "hd l \<noteq> CHR ''>''" "no_header ls"
    by (simp_all add: no_header_def py_getitem_0)
  then show ?case using Cons.IH by simp
qed

lemma first_entry_tail:
  "hdr \<noteq> [] \<Longrightarrow> hd hdr = CHR ''>'' \<Longrightarrow>
   first_entry entry (pre @ hdr # tail) = first_entry entry (pre @ [hdr])"
  by (induction pre arbitrary: entry) (simp_all add: py_getitem_0 split: sum.splits)

lemma read_entries_no_header: "no_header ls \<Longrightarrow> read_entries nPos ls te acc = Inr acc"
  by (induction ls arbitrary: te) (simp_all add: no_header_def py_getitem_0)

lemma read_entries_tail:
  "no_header tail \<Longrightarrow> read_entries nPos (pre @ tail) te acc = read_entries nPos pre te acc"
  by (induction pre arbitrary: te acc)
     (simp_all add: read_entries_no_header split: sum.splits)

lemma count_alignment_tail:
  assumes "hdr \<noteq> []" "hd hdr = CHR ''>''" "no_header tail"
  shows "count_alignment (pre @ hdr # tail) = count_alignment (pre @ [hdr])"
proof -
  have 1: "first_entry [] (drop 1 (pre @ hdr # tail)) = first_entry [] (drop 1 (pre @ [hdr]))"
  proof (cases pre)
    case Nil
    then show ?thesis using first_entry_no_header [OF assms(3)] by (simp add: py_getitem_def py_index_def)
  next
    case (Cons p ps)
    then show ?thesis using first_entry_tail [OF assms(1,2)] by simp
  qed
  have 2: "read_entries n (pre @ hdr # tail) te acc = read_entries n (pre @ [hdr]) te acc" for n te acc
    using read_entries_tail [OF assms(3), of n "pre @ [hdr]" te acc] by simp
  show ?thesis unfolding count_alignment_def 1 2 ..
qed

text \<open>
  Claim C8: the residues of an entry are counted when the next header line is read. The
  lines after the last header line of the file (the last sequence entry) therefore
  contribute nothing: the counts, the numbers of counted entries per position and the
  result are those of the file that ends with its last header line.
\<close>

theorem last_entry_not_counted:
  assumes "hdr \<noteq> []" "hd hdr = CHR ''>''" "no_header tail"
  shows "count_alignment (pre @ hdr # tail) = count_alignment (pre @ [hdr]) \<and>
         readTargetFrequencies rt self (pre @ hdr # tail) posPicker =
         readTargetFrequencies rt self (pre @ [hdr]) posPicker"
  unfolding readTargetFrequencies_def count_alignment_tail [OF assms] by simp

theorem last_entry_not_counted_witness:
  "count_alignment example_alignment =
     count_alignment [''>NULL'' @ NL, ''AC-D'' @ NL, ''>seq2'' @ NL, ''AC-E'' @ NL, ''>seq3'' @ NL] \<and>
   map_sum id (\<lambda>(nPos, tf, nEntries). nEntries) (count_alignment example_alignment) =
     Inr [2, 2, 0, 2]"
proof -
  have 1: "''>seq3'' @ NL \<noteq> []" "hd (''>seq3'' @ NL) = CHR ''>''" "no_header [''A-ED'' @ NL]"
    by (simp_all add: no_header_def)
  have 2: "example_alignment =
      [''>NULL'' @ NL, ''AC-D'' @ NL, ''>seq2'' @ NL, ''AC-E'' @ NL] @ (''>seq3'' @ NL) # [''A-ED'' @ NL]"
    by (simp add: example_alignment_def)
  have 3: "map_sum id (\<lambda>(nPos, tf, nEntries). nEntries) (count_alignment example_alignment) =
     Inr [2, 2, 0, 2]"
    by code_simp
  from last_entry_not_counted [OF 1, of "[''>NULL'' @ NL, ''AC-D'' @ NL, ''>seq2'' @ NL, ''AC-E'' @ NL]"]
  show ?thesis unfolding 2 [symmetric] using 3 by simp
qed

section \<open>Parameter IDs\<close>

subsection \<open>The characters of an ID\<close>

lemma digit_chars_are_digits: "list_all (\<lambda>d. is_digit (digit_char d)) [0..<10]"
  by code_simp

lemma digit_char_is_digit: "d < 10 \<Longrightarrow> is_digit (digit_char d)"
  using digit_chars_are_digits by (simp add: list_all_iff)

lemma str_nat_digits: "list_all is_digit (str_nat n)"
proof (induction n rule: str_nat.induct)
  case (1 n)
  show ?case
  proof (cases "n < 10")
    case True
    then show ?thesis
      using digit_char_is_digit [of n] by (simp add: str_nat.simps [of n])
  next
    case False
    then show ?thesis
      using 1 digit_char_is_digit [of "n mod 10"] by (simp add: str_nat.simps [of n])
  qed
qed

lemma is_digit_number_char: "is_digit c \<Longrightarrow> is_number_char c"
  by (simp add: is_number_char_def)

lemma digits_number_chars: "list_all is_digit s \<Longrightarrow> list_all is_number_char s"
  by (simp add: list_all_iff is_digit_number_char)

lemma number_char_simps [simp]:
  "is_number_char CHR ''-''" "is_number_char CHR ''+''" "is_number_char CHR ''.''"
  "is_number_char CHR ''e''" "is_number_char CHR ''i''" "is_number_char CHR ''n''"
  "is_number_char CHR ''f''" "is_number_char CHR ''a''" "is_number_char CHR ''0''"
  "\<not> is_number_char CHR '' ''" "\<not> is_number_char CHR ''N''"
  by (simp_all add: is_number_char_def is_digit_def)

lemma str_int_chars: "list_all is_number_char (str_int i)"
  by (simp add: str_int_def digits_number_chars str_nat_digits)

lemma str_exponent_chars: "list_all is_number_char (str_exponent e)"
  by (simp add: str_exponent_def digits_number_chars str_nat_digits)

lemma map_digit_char_chars:
  "list_all (\<lambda>d. d < 10) ds \<Longrightarrow> list_all is_number_char (map digit_char ds)"
  by (simp add: list_all_iff digit_char_is_digit is_digit_number_char)

lemma list_all_take_drop:
  "list_all P xs \<Longrightarrow> list_all P (take n xs) \<and> list_all P (drop n xs)"
  by (metis append_take_drop_id list_all_append)

lemma list_all_hd_tl:
  "list_all P xs \<Longrightarrow> xs \<noteq> [] \<Longrightarrow> P (hd xs) \<and> list_all P (tl xs)"
  by (cases xs) simp_all

lemma repr_finite_chars:
  assumes "wf_digits ds dp"
  shows "list_all is_number_char (repr_finite ds dp)"
proof -
  define cs where "cs = map digit_char ds"
  have cs: "list_all is_number_char cs" "cs \<noteq> []"
    using assms map_digit_char_chars [of ds] by (simp_all add: wf_digits_def cs_def)
  note parts = list_all_take_drop [OF cs(1)] list_all_hd_tl [OF cs] str_exponent_chars [of "dp - 1"]
  show ?thesis
    unfolding repr_finite_def cs_def [symmetric] Let_def
    using cs(1) parts by (auto simp: list_all_iff)
qed

lemma str_float_chars: "wf_float x \<Longrightarrow> list_all is_number_char (str_float x)"
  by (cases x) (simp_all add: repr_finite_chars)

lemma py_str_chars: "wf_val v \<Longrightarrow> v \<noteq> PyNone \<Longrightarrow> list_all is_number_char (py_str v)"
  by (cases v) (simp_all add: str_int_chars str_float_chars)

lemma py_str_no_space: "wf_val v \<Longrightarrow> CHR '' '' \<notin> set (py_str v)"
proof (cases "v = PyNone")
  case True
  then show ?thesis by simp
next
  case False
  assume "wf_val v"
  from py_str_chars [OF this False] show ?thesis
    by (auto simp: list_all_iff)
qed


lemma split_at_space:
  assumes "CHR '' '' \<notin> set a" "CHR '' '' \<notin> set a'" "a @ CHR '' '' # r = a' @ CHR '' '' # r'"
  shows "a = a' \<and> r = r'"
  using assms
proof (induction a arbitrary: a')
  case Nil
  then show ?case by (cases a') auto
next
  case (Cons c a)
  then show ?case by (cases a') auto
qed

lemma calcParamsID_inject_strings:
  assumes "wf_val p1" "wf_val p2" "wf_val p3" "wf_val q1" "wf_val q2" "wf_val q3"
    and "calcParamsID p1 p2 p3 = calcParamsID q1 q2 q3"
  shows "py_str p1 = py_str q1 \<and> py_str p2 = py_str q2 \<and> py_str p3 = py_str q3"
proof -
  from assms(7) have e: "py_str p1 @ CHR '' '' # (py_str p2 @ CHR '' '' # py_str p3) =
     py_str q1 @ CHR '' '' # (py_str q2 @ CHR '' '' # py_str q3)"
    by (simp add: calcParamsID_def)
  from split_at_space [OF py_str_no_space [OF assms(1)] py_str_no_space [OF assms(4)] e]
  have 1: "py_str p1 = py_str q1" and
    e2: "py_str p2 @ CHR '' '' # py_str p3 = py_str q2 @ CHR '' '' # py_str q3"
    by simp_all
  from split_at_space [OF py_str_no_space [OF assms(2)] py_str_no_space [OF assms(5)] e2] 1
  show ?thesis by simp
qed



subsection \<open>Reading a number back from its string\<close>

lemma digit_val_digit_char_all: "list_all (\<lambda>d. digit_val (digit_char d) = d) [0..<10]"
  by code_simp

lemma digit_val_digit_char [simp]: "d < 10 \<Longrightarrow> digit_val (digit_char d) = d"
  using digit_val_digit_char_all by (simp add: list_all_iff)

lemma map_digit_val [simp]:
  "list_all (\<lambda>d. d < 10) ds \<Longrightarrow> map digit_val (map digit_char ds) = ds"
  by (induction ds) simp_all

lemma nat_of_string_snoc: "nat_of_string (s @ [c]) = 10 * nat_of_string s + digit_val c"
  by (simp add: nat_of_string_def)

lemma nat_of_string_str_nat [simp]: "nat_of_string (str_nat n) = n"
proof (induction n rule: str_nat.induct)
  case (1 n)
  show ?case
  proof (cases "n < 10")
    case True
    then show ?thesis by (simp add: str_nat.simps [of n] nat_of_string_def)
  next
    case False
    then show ?thesis
      using 1 by (simp add: str_nat.simps [of n] nat_of_string_snoc)
  qed
qed

lemma nat_of_string_zero [simp]: "nat_of_string (CHR ''0'' # s) = nat_of_string s"
  by (simp add: nat_of_string_def digit_val_def)

lemma str_nat_not_Nil [simp]: "str_nat n \<noteq> []"
  by (simp add: str_nat.simps [of n])

lemma is_digit_simps [simp]:
  "\<not> is_digit CHR ''-''" "\<not> is_digit CHR ''+''" "\<not> is_digit CHR ''.''" "\<not> is_digit CHR ''e''"
  "\<not> is_digit CHR ''n''" "is_digit CHR ''0''"
  by (simp_all add: is_digit_def)

lemma hd_str_nat_digit: "is_digit (hd (str_nat n))"
  using str_nat_digits [of n] str_nat_not_Nil [of n]
  by (cases "str_nat n") simp_all

lemma int_of_string_str_int [simp]: "int_of_string (str_int i) = i"
proof (cases "i < 0")
  case True
  then show ?thesis by (simp add: int_of_string_def str_int_def)
next
  case False
  have "hd (str_nat (nat i)) \<noteq> CHR ''-''" "hd (str_nat (nat i)) \<noteq> CHR ''+''"
    using hd_str_nat_digit [of "nat i"] by auto
  with False show ?thesis by (simp add: int_of_string_def str_int_def)
qed

lemma int_of_string_str_exponent [simp]: "int_of_string (str_exponent e) = e"
  by (simp add: int_of_string_def str_exponent_def)


lemma takeWhile_split:
  "\<forall>x \<in> set xs. x \<noteq> c \<Longrightarrow> takeWhile (\<lambda>x. x \<noteq> c) (xs @ c # ys) = xs"
  by (induction xs) simp_all

lemma dropWhile_split:
  "\<forall>x \<in> set xs. x \<noteq> c \<Longrightarrow> dropWhile (\<lambda>x. x \<noteq> c) (xs @ c # ys) = c # ys"
  by (induction xs) simp_all

lemma takeWhile_replicate_append:
  "xs = [] \<or> hd xs \<noteq> z \<Longrightarrow> takeWhile (\<lambda>c. c = z) (replicate k z @ xs) = replicate k z"
  by (induction k) (auto simp: takeWhile_eq_Nil_iff)

lemma dropWhile_replicate_append:
  "xs = [] \<or> hd xs \<noteq> z \<Longrightarrow> dropWhile (\<lambda>c. c = z) (replicate k z @ xs) = xs"
  by (induction k) (auto simp: dropWhile_eq_self_iff)

lemma digit_char_zero_all: "list_all (\<lambda>d. (digit_char d = CHR ''0'') = (d = 0)) [0..<10]"
  by code_simp

lemma digit_char_zero: "d < 10 \<Longrightarrow> digit_char d = CHR ''0'' \<longleftrightarrow> d = 0"
  using digit_char_zero_all by (simp add: list_all_iff)

text \<open>The facts about the digit characters of a well-formed float.\<close>

lemma wf_digits_chars:
  assumes "wf_digits ds dp" "cs = map digit_char ds"
  shows "cs \<noteq> []" "length cs = length ds" "map digit_val cs = ds"
    "\<forall>c \<in> set cs. is_digit c"
    "hd ds \<noteq> 0 \<Longrightarrow> hd cs \<noteq> CHR ''0'' \<and> last cs \<noteq> CHR ''0''"
    "hd ds = 0 \<Longrightarrow> cs = ''0'' \<and> dp = 1"
proof -
  from assms(1) have ne: "ds \<noteq> []" and lt: "list_all (\<lambda>d. d < 10) ds"
    by (simp_all add: wf_digits_def)
  show "cs \<noteq> []" "length cs = length ds" "map digit_val cs = ds"
    using ne lt assms(2) by (simp_all del: map_map)
  show "\<forall>c \<in> set cs. is_digit c"
    using lt assms(2) by (auto simp: list_all_iff digit_char_is_digit)
  have h: "hd ds < 10" "last ds < 10"
    using ne lt by (auto simp: list_all_iff)
  show "hd cs \<noteq> CHR ''0'' \<and> last cs \<noteq> CHR ''0''" if "hd ds \<noteq> 0"
  proof -
    from that assms(1) have "last ds \<noteq> 0" by (simp add: wf_digits_def)
    with that h ne show ?thesis
      by (simp add: assms(2) hd_map last_map digit_char_zero)
  qed
  show "cs = ''0'' \<and> dp = 1" if "hd ds = 0"
    using that assms by (simp add: wf_digits_def digit_char_def)
qed


lemma strip_trailing:
  "xs \<noteq> [] \<Longrightarrow> last xs \<noteq> z \<Longrightarrow> rev (dropWhile (\<lambda>c. c = z) (rev (xs @ replicate k z))) = xs"
proof -
  assume a: "xs \<noteq> []" "last xs \<noteq> z"
  have "rev (xs @ replicate k z) = replicate k z @ rev xs" by simp
  moreover have "rev xs = [] \<or> hd (rev xs) \<noteq> z" using a by (simp add: hd_rev)
  ultimately show ?thesis by (simp add: dropWhile_replicate_append)
qed

lemma decode_sci_repr:
  assumes "wf_digits ds dp" "cs = map digit_char ds"
  shows "decode_sci (hd cs # (if 1 < length cs then CHR ''.'' # tl cs else [])
           @ CHR ''e'' # str_exponent (dp - 1)) = (ds, dp)"
proof -
  note f = wf_digits_chars [OF assms]
  define m where "m = hd cs # (if 1 < length cs then CHR ''.'' # tl cs else [])"
  have hd: "cs ! 0 = hd cs" using f(1) by (simp add: hd_conv_nth)
  have dig: "is_digit (hd cs)" "\<forall>c \<in> set (tl cs). is_digit c"
    using f(1,4) by (auto dest: list.set_sel(2))
  have ne: "\<forall>x \<in> set m. x \<noteq> CHR ''e''"
    using dig by (auto simp: m_def hd)
  have filt: "filter (\<lambda>c. c \<noteq> CHR ''.'') m = cs"
  proof -
    obtain a rest where c: "cs = a # rest" using f(1) by (cases cs) auto
    have "filter (\<lambda>c. c \<noteq> CHR ''.'') rest = rest"
      using dig(2) c by (auto simp: filter_id_conv)
    moreover have "a \<noteq> CHR ''.''" using dig(1) c by auto
    moreover have "rest = []" if "\<not> 1 < length cs"
      using that c by (cases rest) simp_all
    ultimately show ?thesis by (simp add: m_def c)
  qed
  have "decode_sci (m @ CHR ''e'' # str_exponent (dp - 1)) = (ds, dp)"
    unfolding decode_sci_def Let_def takeWhile_split [OF ne] dropWhile_split [OF ne] filt
    using f(3) by simp
  then show ?thesis by (simp only: m_def append_Cons)
qed

lemma decode_fixed_small:
  assumes "wf_digits ds dp" "dp \<le> 0"
  shows "decode_fixed (''0.'' @ replicate (nat (- dp)) CHR ''0'' @ map digit_char ds) = (ds, dp)"
proof -
  define cs where "cs = map digit_char ds"
  note f = wf_digits_chars [OF assms(1) cs_def]
  have nz: "hd ds \<noteq> 0" using f(6) assms(2) by auto
  note g = f(5) [OF nz]
  define k where "k = nat (- dp)"
  have ip: "takeWhile (\<lambda>c. c \<noteq> CHR ''.'') (''0.'' @ replicate k CHR ''0'' @ cs) = ''0''"
    and fp: "dropWhile (\<lambda>c. c \<noteq> CHR ''.'') (''0.'' @ replicate k CHR ''0'' @ cs) =
               CHR ''.'' # replicate k CHR ''0'' @ cs"
    by simp_all
  have every: "''0'' @ replicate k CHR ''0'' @ cs = replicate (Suc k) CHR ''0'' @ cs"
    by simp
  have c: "cs = [] \<or> hd cs \<noteq> CHR ''0''" using g by simp
  have st: "rev (dropWhile (\<lambda>c. c = CHR ''0'') (rev cs)) = cs"
    using strip_trailing [of cs "CHR ''0''" 0] f(1) g by simp
  show ?thesis
    unfolding decode_fixed_def Let_def cs_def [symmetric] k_def [symmetric] ip fp list.sel every
      takeWhile_replicate_append [OF c] dropWhile_replicate_append [OF c] st
    using f(1,3) assms(2) by (simp add: k_def)
qed

lemma decode_fixed_middle:
  assumes "wf_digits ds dp" "0 < dp" "nat dp < length ds"
  shows "decode_fixed (take (nat dp) (map digit_char ds) @ CHR ''.'' # drop (nat dp) (map digit_char ds))
           = (ds, dp)"
proof -
  define cs where "cs = map digit_char ds"
  note f = wf_digits_chars [OF assms(1) cs_def]
  have "length ds \<noteq> 1" using assms(2,3) by auto
  have nz: "hd ds \<noteq> 0"
  proof
    assume "hd ds = 0"
    from f(6) [OF this] have "length cs = 1" by simp
    with f(2) \<open>length ds \<noteq> 1\<close> show False by simp
  qed
  note g = f(5) [OF nz]
  define j where "j = nat dp"
  have nd: "\<forall>x \<in> set (take j cs). x \<noteq> CHR ''.''"
    using f(4) by (auto dest!: in_set_takeD)
  have c: "takeWhile (\<lambda>c. c = CHR ''0'') cs = []" "dropWhile (\<lambda>c. c = CHR ''0'') cs = cs"
    using f(1) g by (cases cs; simp)+
  have st: "rev (dropWhile (\<lambda>c. c = CHR ''0'') (rev cs)) = cs"
    using strip_trailing [of cs "CHR ''0''" 0] f(1) g by simp
  show ?thesis
    unfolding decode_fixed_def Let_def cs_def [symmetric] j_def [symmetric]
      takeWhile_split [OF nd] dropWhile_split [OF nd] list.sel append_take_drop_id c st
    using f(1,2,3) assms(2,3) by (simp add: j_def)
qed

lemma decode_fixed_large:
  assumes "wf_digits ds dp" "0 < dp" "\<not> nat dp < length ds"
  shows "decode_fixed (map digit_char ds @ replicate (nat dp - length ds) CHR ''0'' @ ''.0'') = (ds, dp)"
proof -
  define cs where "cs = map digit_char ds"
  note f = wf_digits_chars [OF assms(1) cs_def]
  define k where "k = nat dp - length ds"
  have nd: "\<forall>x \<in> set (cs @ replicate k CHR ''0''). x \<noteq> CHR ''.''"
    using f(4) by auto
  have s: "cs @ replicate k CHR ''0'' @ ''.0'' = (cs @ replicate k CHR ''0'') @ CHR ''.'' # ''0''"
    by simp
  show ?thesis
  proof (cases "hd ds = 0")
    case True
    with f(6) have z: "cs = ''0''" "dp = 1" by simp_all
    with f(2) have "k = 0" "ds = [0]" using assms(1) True by (simp_all add: k_def wf_digits_def)
    then show ?thesis
      unfolding cs_def [symmetric] k_def [symmetric] using z
      by (simp add: decode_fixed_def)
  next
    case False
    note g = f(5) [OF False]
    have every: "(cs @ replicate k CHR ''0'') @ ''0'' = cs @ replicate (Suc k) CHR ''0''"
      by (simp add: replicate_append_same)
    have c: "takeWhile (\<lambda>c. c = CHR ''0'') (cs @ replicate (Suc k) CHR ''0'') = []"
      "dropWhile (\<lambda>c. c = CHR ''0'') (cs @ replicate (Suc k) CHR ''0'') = cs @ replicate (Suc k) CHR ''0''"
      using f(1) g by (cases cs; simp)+
    have st: "rev (dropWhile (\<lambda>c. c = CHR ''0'') (rev (cs @ replicate (Suc k) CHR ''0''))) = cs"
      using strip_trailing [of cs "CHR ''0''" "Suc k"] f(1) g by simp
    show ?thesis
      unfolding decode_fixed_def Let_def cs_def [symmetric] k_def [symmetric] s
        takeWhile_split [OF nd] dropWhile_split [OF nd] list.sel every c st
      using f(1,2,3) assms(2,3) by (simp add: k_def)
  qed
qed

lemma repr_finite_e:
  assumes "wf_digits ds dp"
  shows "CHR ''e'' \<in> set (repr_finite ds dp) \<longleftrightarrow> dp \<le> - 4 \<or> 16 < dp"
proof -
  define cs where "cs = map digit_char ds"
  note f = wf_digits_chars [OF assms cs_def]
  have e: "CHR ''e'' \<notin> set cs"
    using f(4) by auto
  then have "CHR ''e'' \<notin> set (take n cs)" "CHR ''e'' \<notin> set (drop n cs)" for n
    by (meson in_set_takeD) (meson e in_set_dropD)
  with e have "CHR ''e'' \<notin> set cs" "CHR ''e'' \<notin> set (take n cs)" "CHR ''e'' \<notin> set (drop n cs)" for n
    by simp_all
  then show ?thesis
    unfolding repr_finite_def cs_def [symmetric] Let_def by auto
qed

lemma decode_finite_repr:
  assumes "wf_digits ds dp"
  shows "decode_finite (repr_finite ds dp) = (ds, dp)"
proof (cases "dp \<le> - 4 \<or> 16 < dp")
  case True
  have "repr_finite ds dp =
      hd (map digit_char ds) #
        (if 1 < length (map digit_char ds) then CHR ''.'' # tl (map digit_char ds) else []) @
        CHR ''e'' # str_exponent (dp - 1)"
    using True unfolding repr_finite_def Let_def by (simp only: if_True)
  with decode_sci_repr [OF assms refl] have "decode_sci (repr_finite ds dp) = (ds, dp)"
    by simp
  then show ?thesis
    using True repr_finite_e [OF assms] by (simp add: decode_finite_def)
next
  case False
  then show ?thesis
    using decode_fixed_small [OF assms] decode_fixed_middle [OF assms] decode_fixed_large [OF assms]
      repr_finite_e [OF assms]
    by (simp add: decode_finite_def) (simp add: repr_finite_def Let_def)
qed


lemma finite_char_simps [simp]:
  "is_finite_char CHR ''-''" "is_finite_char CHR ''+''" "is_finite_char CHR ''.''"
  "is_finite_char CHR ''e''" "is_finite_char CHR ''0''" "\<not> is_finite_char CHR ''n''"
  "is_digit c \<Longrightarrow> is_finite_char c"
  by (simp_all add: is_finite_char_def is_digit_def)

lemma str_exponent_finite_chars: "list_all is_finite_char (str_exponent e)"
  using str_nat_digits [of "nat \<bar>e\<bar>"] by (auto simp: str_exponent_def list_all_iff)

lemma repr_finite_finite_chars:
  assumes "wf_digits ds dp"
  shows "list_all is_finite_char (repr_finite ds dp)"
proof -
  define cs where "cs = map digit_char ds"
  note f = wf_digits_chars [OF assms cs_def]
  have cs: "list_all is_finite_char cs" using f(4) by (auto simp: list_all_iff)
  note parts = list_all_take_drop [OF cs] list_all_hd_tl [OF cs f(1)]
    str_exponent_finite_chars [of "dp - 1"]
  show ?thesis
    unfolding repr_finite_def cs_def [symmetric] Let_def
    using cs parts by (auto simp: list_all_iff)
qed

lemma repr_finite_hd:
  assumes "wf_digits ds dp"
  shows "repr_finite ds dp \<noteq> [] \<and> is_digit (hd (repr_finite ds dp))"
proof -
  define cs where "cs = map digit_char ds"
  note f = wf_digits_chars [OF assms cs_def]
  have h: "is_digit (hd cs)" using f(1,4) by auto
  have t: "is_digit (hd (take (nat dp) cs))" if "0 < dp"
    using h that f(1) by (cases cs) (simp_all add: take_Suc_conv_app_nth hd_take)
  show ?thesis
    unfolding repr_finite_def cs_def [symmetric] Let_def
    using h t f(1) by (auto simp: hd_append)
qed

lemma repr_finite_point:
  assumes "wf_digits ds dp"
  shows "CHR ''.'' \<in> set (repr_finite ds dp) \<or> CHR ''e'' \<in> set (repr_finite ds dp)"
  unfolding repr_finite_def Let_def by auto

lemma decode_float_str_float:
  assumes "wf_float x"
  shows "decode_float (str_float x) = x"
proof (cases x)
  case (Finite neg ds dp)
  with assms have wf: "wf_digits ds dp" by simp
  note h = repr_finite_hd [OF wf]
  have n: "CHR ''n'' \<notin> set (repr_finite ds dp)"
    using repr_finite_finite_chars [OF wf] by (auto simp: list_all_iff)
  then have ne: "repr_finite ds dp \<noteq> ''nan''" "repr_finite ds dp \<noteq> ''inf''"
    "repr_finite ds dp \<noteq> ''-inf''" "CHR ''-'' # repr_finite ds dp \<noteq> ''nan''"
    "CHR ''-'' # repr_finite ds dp \<noteq> ''inf''" "CHR ''-'' # repr_finite ds dp \<noteq> ''-inf''"
    by auto
  have hm: "hd (repr_finite ds dp) \<noteq> CHR ''-''" using h by auto
  show ?thesis
    using ne hm decode_finite_repr [OF wf]
    by (simp add: Finite decode_float_def)
next
  case (Infinity neg)
  then show ?thesis by (simp add: decode_float_def)
next
  case NaN
  then show ?thesis by (simp add: decode_float_def)
qed

lemma str_float_not_None:
  assumes "wf_float x"
  shows "str_float x \<noteq> ''None''"
    and "CHR ''.'' \<in> set (str_float x) \<or> CHR ''e'' \<in> set (str_float x) \<or> CHR ''n'' \<in> set (str_float x)"
proof -
  show "str_float x \<noteq> ''None''"
    using str_float_chars [OF assms] by auto
  show "CHR ''.'' \<in> set (str_float x) \<or> CHR ''e'' \<in> set (str_float x) \<or> CHR ''n'' \<in> set (str_float x)"
  proof (cases x)
    case (Finite neg ds dp)
    with assms have "wf_digits ds dp" by simp
    from repr_finite_point [OF this] show ?thesis by (auto simp: Finite)
  qed simp_all
qed

lemma str_int_plain:
  "str_int i \<noteq> ''None''" "CHR ''.'' \<notin> set (str_int i)" "CHR ''e'' \<notin> set (str_int i)"
  "CHR ''n'' \<notin> set (str_int i)"
proof -
  have d: "list_all is_digit (str_nat n)" for n by (rule str_nat_digits)
  have "list_all (\<lambda>c. is_digit c \<or> c = CHR ''-'') (str_int i)"
    using d by (auto simp: str_int_def list_all_iff)
  then have c: "\<And>c. c \<in> set (str_int i) \<Longrightarrow> is_digit c \<or> c = CHR ''-''"
    by (simp add: list_all_iff)
  show "CHR ''.'' \<notin> set (str_int i)" "CHR ''e'' \<notin> set (str_int i)" "CHR ''n'' \<notin> set (str_int i)"
    using c by fastforce+
  show "str_int i \<noteq> ''None''"
    using str_int_chars [of i] by auto
qed

lemma decode_val_py_str:
  assumes "wf_val v"
  shows "decode_val (py_str v) = v"
proof (cases v)
  case PyNone
  then show ?thesis by (simp add: decode_val_def)
next
  case (PyInt i)
  then show ?thesis using str_int_plain [of i] by (simp add: decode_val_def)
next
  case (PyFloat x)
  with assms have wf: "wf_float x" by simp
  show ?thesis
    using str_float_not_None [OF wf] decode_float_str_float [OF wf]
    by (auto simp: PyFloat decode_val_def)
qed

lemma py_str_inject:
  assumes "wf_val v" "wf_val w" "py_str v = py_str w"
  shows "v = w"
proof -
  have "v = decode_val (py_str v)" using decode_val_py_str [OF assms(1)] by simp
  also have "\<dots> = decode_val (py_str w)" by (simp only: assms(3))
  also have "\<dots> = w" by (rule decode_val_py_str [OF assms(2)])
  finally show ?thesis .
qed



subsection \<open>Identical and different IDs\<close>

text \<open>
  Claim C1, as stated, fails: the ID is built from the strings of the three values, and
  values that are equal in Python can have different strings. The Boltzmann temperatures
  0.0 and -0.0 are equal and give different IDs; so do the backrub temperatures 1 (an
  \<^verbatim>\<open>int\<close>) and 1.0 (a \<^verbatim>\<open>float\<close>).
\<close>

theorem calcParamsID_equal_values_counterexample:
  "py_eq (PyFloat float_zero) (PyFloat (Finite True [0] 1)) \<and>
   calcParamsID (PyFloat (Finite False [9] 0)) (PyInt 50) (PyFloat float_zero) = ''0.9 50 0.0'' \<and>
   calcParamsID (PyFloat (Finite False [9] 0)) (PyInt 50) (PyFloat (Finite True [0] 1)) =
     ''0.9 50 -0.0'' \<and>
   py_eq (PyInt 1) (PyFloat (Finite False [1] 1)) \<and>
   calcParamsID (PyInt 1) (PyInt 50) (PyFloat float_zero) = ''1 50 0.0'' \<and>
   calcParamsID (PyFloat (Finite False [1] 1)) (PyInt 50) (PyFloat float_zero) = ''1.0 50 0.0''"
  by code_simp

text \<open>
  Claim C1, amended: for hyperparameter tuples of \<^verbatim>\<open>None\<close>, \<^verbatim>\<open>int\<close> and \<^verbatim>\<open>float\<close>
  values, \<^verbatim>\<open>calcParamsID\<close> returns the same ID exactly when the tuples agree in every
  field in type and in value, with 0.0 and -0.0 told apart: such tuples get identical IDs,
  and tuples that differ in a field get different IDs.
\<close>

theorem calcParamsID_injective:
  assumes "wf_val p1" "wf_val p2" "wf_val p3" "wf_val q1" "wf_val q2" "wf_val q3"
  shows "calcParamsID p1 p2 p3 = calcParamsID q1 q2 q3 \<longleftrightarrow> p1 = q1 \<and> p2 = q2 \<and> p3 = q3"
proof
  assume "calcParamsID p1 p2 p3 = calcParamsID q1 q2 q3"
  from calcParamsID_inject_strings [OF assms this]
  show "p1 = q1 \<and> p2 = q2 \<and> p3 = q3"
    using py_str_inject assms by blast
next
  assume "p1 = q1 \<and> p2 = q2 \<and> p3 = q3"
  then show "calcParamsID p1 p2 p3 = calcParamsID q1 q2 q3" by simp
qed

theorem calcParamsID_injective_witness:
  "calcParamsID (PyFloat (Finite False [9] 0)) (PyInt 50) (PyFloat float_zero) \<noteq>
   calcParamsID (PyFloat (Finite False [9] 0)) (PyInt 50) (PyFloat float_minus_one)"
proof -
  have w: "wf_val (PyFloat (Finite False [9] 0))" "wf_val (PyInt 50)" "wf_val (PyFloat float_zero)"
    "wf_val (PyFloat float_minus_one)"
    by (simp_all add: wf_digits_def float_zero_def float_minus_one_def)
  from calcParamsID_injective [OF w(1,2,3) w(1,2,4)] show ?thesis
    by (simp add: float_zero_def float_minus_one_def)
qed

section \<open>Energy tables\<close>

subsection \<open>readData: the window\<close>

lemma py_foreach_append:
  "py_foreach body s (xs @ ys) = py_then (py_foreach body s xs) (\<lambda>s'. py_foreach body s' ys)"
  by (induction xs arbitrary: s) (simp_all split: sum.splits)

lemma py_foreach_invariant:
  assumes "py_foreach body s xs = Inr s'" "P s"
    and "\<And>s x s'. P s \<Longrightarrow> body s x = Inr s' \<Longrightarrow> P s'"
  shows "P s'"
  using assms(1,2)
proof (induction xs arbitrary: s)
  case Nil
  then show ?case by simp
next
  case (Cons x xs)
  then obtain s1 where "body s x = Inr s1" "py_foreach body s1 xs = Inr s'"
    by (auto split: sum.splits)
  then show ?case using Cons.IH assms(3) Cons.prems(2) by blast
qed

lemma stored_positions_Model [simp]:
  "stored_positions (Model e b t w st n mp mi pm) = {}"
  by (simp add: stored_positions_def Model_def)

lemma stored_positions_addMacrostateData [simp]:
  "stored_positions (addMacrostateData m mac p e) = insert p (stored_positions m)"
  by (auto simp: stored_positions_def addMacrostateData_def image_iff)

lemma stored_positions_addMicrostateData [simp]:
  "stored_positions (addMicrostateData m mac p e) = insert p (stored_positions m)"
  by (auto simp: stored_positions_def addMicrostateData_def image_iff)

lemma readData_store_Inr:
  assumes "readData_store self mac b ens bt pos lit = Inr self'"
  shows "\<exists>ID m. self' = self\<lparr>models := (models self)(ID \<mapsto> m)\<rparr> \<and>
           ID = calcParamsID (PyFloat b) (PyInt ens) (PyFloat bt) \<and>
           stored_positions m =
             insert pos (case models self ID of Some m0 \<Rightarrow> stored_positions m0 | None \<Rightarrow> {})"
  using assms unfolding readData_store_def
  by (auto simp: py_then_eq_Inr Let_def split: option.splits)

lemma stored_in_window_update:
  assumes "stored_in_window self" "in_window self pos"
    and "stored_positions m =
           insert pos (case models self ID of Some m0 \<Rightarrow> stored_positions m0 | None \<Rightarrow> {})"
  shows "stored_in_window (self\<lparr>models := (models self)(ID \<mapsto> m)\<rparr>)"
proof -
  have "in_window self p" if "m' \<in> ran ((models self)(ID \<mapsto> m))" "p \<in> stored_positions m'" for m' p
  proof (cases "m' = m")
    case True
    then have "p = pos \<or> (\<exists>m0. models self ID = Some m0 \<and> p \<in> stored_positions m0)"
      using that(2) assms(3) by (auto split: option.splits)
    then show ?thesis using assms(1,2) by (auto simp: stored_in_window_def ran_def)
  next
    case False
    then have "m' \<in> ran (models self)"
      using that(1) by (auto simp: ran_def split: if_splits)
    then show ?thesis using assms(1) that(2) by (auto simp: stored_in_window_def)
  qed
  then show ?thesis by (simp add: stored_in_window_def in_window_def)
qed

lemma not_in_window: "\<not> in_window s p \<longleftrightarrow> p < minPosition s \<or> p \<ge> minPosition s + nPositions s"
  by (auto simp: in_window_def)

lemma readData_row_fields:
  assumes "readData_fields rt self line = Inr f"
  shows "readData_row rt (fe, self) line =
     (if in_window (record_minPosition fe self (f_position f)) (f_position f) then
        py_then (py_float rt (f_backrubT f)) (\<lambda>backrubT.
        py_then (boltzmann_of_text rt (f_boltzmanT f)) (\<lambda>boltzmanT.
        py_then (readData_store (record_minPosition fe self (f_position f)) (f_macrostate f)
                   backrubT (f_ensembleS f) boltzmanT (f_position f) (f_energies f)) (\<lambda>self'.
        Inr (False, self'))))
      else Inr (False, record_minPosition fe self (f_position f)))"
  using assms by (auto simp: readData_row_def Let_def in_window_def)

lemma readData_row_Inr:
  assumes "readData_row rt (fe, self) line = Inr st'"
  obtains f b bt where
      "readData_fields rt self line = Inr f" "fst st' = False"
      "in_window (record_minPosition fe self (f_position f)) (f_position f)"
      "readData_store (record_minPosition fe self (f_position f)) (f_macrostate f) b
         (f_ensembleS f) bt (f_position f) (f_energies f) = Inr (snd st')"
    | f where
      "readData_fields rt self line = Inr f" "fst st' = False"
      "\<not> in_window (record_minPosition fe self (f_position f)) (f_position f)"
      "snd st' = record_minPosition fe self (f_position f)"
proof -
  have "\<exists>f. readData_fields rt self line = Inr f"
  proof (cases "readData_fields rt self line")
    case (Inl e)
    then have "readData_row rt (fe, self) line = Inl e"
      by (simp add: readData_row_def)
    with assms show ?thesis by simp
  next
    case (Inr f)
    then show ?thesis by blast
  qed
  then obtain f where f: "readData_fields rt self line = Inr f" ..
  note eq = assms [unfolded readData_row_fields [OF f]]
  show thesis
  proof (cases "in_window (record_minPosition fe self (f_position f)) (f_position f)")
    case True
    with eq obtain b bt s' where
      "readData_store (record_minPosition fe self (f_position f)) (f_macrostate f) b
         (f_ensembleS f) bt (f_position f) (f_energies f) = Inr s'"
      "st' = (False, s')"
      by (auto simp: py_then_eq_Inr)
    then show thesis using that(1) [OF f _ True, of b bt] by simp
  next
    case False
    with eq have "st' = (False, record_minPosition fe self (f_position f))" by simp
    then show thesis using that(2) [OF f _ False] by simp
  qed
qed

lemma record_minPosition_simps [simp]:
  "nPositions (record_minPosition fe self p) = nPositions self"
  "models (record_minPosition fe self p) = models self"
  "macStateToIndex (record_minPosition fe self p) = macStateToIndex self"
  "minPosition (record_minPosition fe self p) = (if fe then p else minPosition self)"
  by (simp_all add: record_minPosition_def)

lemma readData_row_inv:
  assumes "readData_inv n st" "readData_row rt st line = Inr st'"
  shows "readData_inv n st'"
proof -
  obtain fe self where st: "st = (fe, self)" by (cases st)
  have w1: "stored_in_window (record_minPosition fe self p)" for p
    using assms(1) st by (cases fe) (auto simp: readData_inv_def stored_in_window_def record_minPosition_def)
  have n1: "nPositions self = n" using assms(1) st by (simp add: readData_inv_def)
  from assms(2) [unfolded st] show ?thesis
  proof (cases rule: readData_row_Inr)
    case (1 f b bt)
    from readData_store_Inr [OF 1(4)] obtain ID m where
      s': "snd st' = (record_minPosition fe self (f_position f))
             \<lparr>models := (models (record_minPosition fe self (f_position f)))(ID \<mapsto> m)\<rparr>" and
      sp: "stored_positions m =
             insert (f_position f)
               (case models (record_minPosition fe self (f_position f)) ID of
                  Some m0 \<Rightarrow> stored_positions m0 | None \<Rightarrow> {})"
      by blast
    have "stored_in_window (snd st')"
      unfolding s' using w1 1(3) sp by (rule stored_in_window_update)
    then show ?thesis using 1(2) n1 s' by (simp add: readData_inv_def)
  next
    case (2 f)
    then show ?thesis using n1 w1 by (simp add: readData_inv_def)
  qed
qed

lemma readData_stored_in_window:
  assumes "readData rt self source = Inr self'"
  shows "stored_in_window self' \<and> nPositions self' = nPositions self"
proof -
  from assms obtain st' where
    l: "py_foreach (readData_row rt) (True, self\<lparr>models := Map.empty, minPosition := 65535\<rparr>)
          (drop 1 source) = Inr st'" and s: "self' = snd st'"
    unfolding readData_def by (auto simp: py_then_eq_Inr)
  have "readData_inv (nPositions self) (True, self\<lparr>models := Map.empty, minPosition := 65535\<rparr>)"
    by (simp add: readData_inv_def stored_in_window_def)
  with l have "readData_inv (nPositions self) st'"
    by (rule py_foreach_invariant) (rule readData_row_inv)
  then show ?thesis using s by (simp add: readData_inv_def)
qed


subsection \<open>readData: the first position\<close>

lemma readData_store_fields:
  assumes "readData_store self mac b ens bt pos lit = Inr self'"
  shows "minPosition self' = minPosition self \<and> nPositions self' = nPositions self \<and>
         macStateToIndex self' = macStateToIndex self"
  using readData_store_Inr [OF assms] by auto

lemma readData_fields_cong:
  "macStateToIndex s = macStateToIndex s' \<Longrightarrow> readData_fields rt s line = readData_fields rt s' line"
  by (simp add: readData_fields_def)

lemma readData_row_state:
  assumes "readData_row rt (fe, self) line = Inr st'"
  shows "fst st' = False \<and> macStateToIndex (snd st') = macStateToIndex self \<and>
         (\<exists>f. readData_fields rt self line = Inr f \<and>
              minPosition (snd st') = (if fe then f_position f else minPosition self))"
  using assms
proof (cases rule: readData_row_Inr)
  case (1 f b bt)
  from readData_store_fields [OF 1(4)] 1(1,2) show ?thesis by simp
next
  case (2 f)
  then show ?thesis by simp
qed

lemma readData_row_after_first:
  assumes "after_first p0 msi st" "readData_row rt st line = Inr st'"
  shows "after_first p0 msi st'"
proof -
  obtain fe self where st: "st = (fe, self)" by (cases st)
  from readData_row_state [OF assms(2) [unfolded st]] assms(1) st
  show ?thesis by (auto simp: after_first_def)
qed

lemma readData_row_smaller:
  assumes "after_first p0 msi st" "readData_fields rt s0 line = Inr f" "macStateToIndex s0 = msi"
    and "f_position f < p0"
  shows "readData_row rt st line = Inr st"
proof -
  obtain fe self where st: "st = (fe, self)" by (cases st)
  have fe: "\<not> fe" and mp: "minPosition self = p0" and ms: "macStateToIndex self = msi"
    using assms(1) st by (simp_all add: after_first_def)
  have f: "readData_fields rt self line = Inr f"
    using assms(2,3) ms readData_fields_cong [of self s0] by simp
  have "\<not> in_window (record_minPosition fe self (f_position f)) (f_position f)"
    using fe mp assms(4) by (simp add: in_window_def)
  then show ?thesis
    unfolding st readData_row_fields [OF f] using fe by (simp add: record_minPosition_def)
qed

lemma py_foreach_eq_Inr_Cons:
  "py_foreach body s (x # xs) = Inr s' \<longleftrightarrow>
     (\<exists>s1. body s x = Inr s1 \<and> py_foreach body s1 xs = Inr s')"
  by (cases "body s x") simp_all

lemma py_foreach_eq_Inr_append:
  "py_foreach body s (xs @ ys) = Inr s' \<longleftrightarrow>
     (\<exists>s1. py_foreach body s xs = Inr s1 \<and> py_foreach body s1 ys = Inr s')"
  by (simp add: py_foreach_append py_then_eq_Inr)

lemma readData_eq_Inr:
  "readData rt self source = Inr self' \<longleftrightarrow>
     (\<exists>fe. py_foreach (readData_row rt) (True, self\<lparr>models := Map.empty, minPosition := 65535\<rparr>)
            (drop 1 source) = Inr (fe, self'))"
  by (auto simp: readData_def py_then_eq_Inr)

lemma readData_first_row:
  assumes "readData rt self (hdr # first # rest) = Inr self'"
  obtains f st1 fe where
    "readData_fields rt self first = Inr f"
    "readData_row rt (True, self\<lparr>models := Map.empty, minPosition := 65535\<rparr>) first = Inr st1"
    "after_first (f_position f) (macStateToIndex self) st1"
    "py_foreach (readData_row rt) st1 rest = Inr (fe, self')"
proof -
  from assms obtain fe st1 where
    r1: "readData_row rt (True, self\<lparr>models := Map.empty, minPosition := 65535\<rparr>) first = Inr st1" and
    r2: "py_foreach (readData_row rt) st1 rest = Inr (fe, self')"
    by (auto simp: readData_eq_Inr py_foreach_eq_Inr_Cons simp del: py_foreach.simps)
  from readData_row_state [OF r1] obtain f where
    f: "readData_fields rt (self\<lparr>models := Map.empty, minPosition := 65535\<rparr>) first = Inr f" and
    a: "after_first (f_position f) (macStateToIndex self) st1"
    by (auto simp: after_first_def)
  have "readData_fields rt self first = Inr f"
    using f readData_fields_cong [of self "self\<lparr>models := Map.empty, minPosition := 65535\<rparr>" rt first]
    by simp
  then show thesis using that r1 a r2 by blast
qed

lemma readData_minPosition_first:
  assumes "readData rt self (hdr # first # rest) = Inr self'"
  shows "\<exists>f. readData_fields rt self first = Inr f \<and> minPosition self' = f_position f"
proof -
  from assms obtain f st1 fe where
    f: "readData_fields rt self first = Inr f" and
    a: "after_first (f_position f) (macStateToIndex self) st1" and
    r: "py_foreach (readData_row rt) st1 rest = Inr (fe, self')"
    by (rule readData_first_row)
  from r a have "after_first (f_position f) (macStateToIndex self) (fe, self')"
    by (rule py_foreach_invariant) (rule readData_row_after_first)
  then show ?thesis using f by (auto simp: after_first_def)
qed

lemma readData_smaller_dropped:
  assumes "readData rt self (hdr # first # pre @ row # post) = Inr self'"
    and "readData_fields rt self first = Inr f" "readData_fields rt self row = Inr g"
    and "f_position g < f_position f"
  shows "readData rt self (hdr # first # pre @ post) = Inr self'"
proof -
  from assms(1) obtain f' st1 fe where
    f': "readData_fields rt self first = Inr f'" and
    r1: "readData_row rt (True, self\<lparr>models := Map.empty, minPosition := 65535\<rparr>) first = Inr st1" and
    a: "after_first (f_position f') (macStateToIndex self) st1" and
    r: "py_foreach (readData_row rt) st1 (pre @ row # post) = Inr (fe, self')"
    by (rule readData_first_row)
  from f' assms(2) have ff: "f' = f" by simp
  from r obtain st2 st3 where
    p: "py_foreach (readData_row rt) st1 pre = Inr st2" and
    w: "readData_row rt st2 row = Inr st3" and
    q: "py_foreach (readData_row rt) st3 post = Inr (fe, self')"
    by (auto simp: py_foreach_eq_Inr_append py_foreach_eq_Inr_Cons simp del: py_foreach.simps)
  from p a have "after_first (f_position f) (macStateToIndex self) st2"
    unfolding ff by (rule py_foreach_invariant) (rule readData_row_after_first)
  from readData_row_smaller [OF this assms(3) refl assms(4)] w have "st3 = st2" by simp
  with p q have "py_foreach (readData_row rt) st1 (pre @ post) = Inr (fe, self')"
    by (auto simp: py_foreach_eq_Inr_append)
  with r1 show ?thesis
    by (auto simp: readData_eq_Inr py_foreach_eq_Inr_Cons simp del: py_foreach.simps)
qed

subsection \<open>readData: the text of the Boltzmann temperature\<close>

lemma boltzmann_of_text_cases:
  "boltzmann_of_text rt t =
     (if t = ''min'' then Inr float_zero
      else if t = ''mean'' then Inr float_minus_one
      else (case float_of_text rt t of None \<Rightarrow> Inl (ValueError t) | Some x \<Rightarrow> Inr x))"
  by (simp add: boltzmann_of_text_def py_float_def)

lemma readData_row_boltzmann:
  assumes "readData_fields rt self line = Inr f"
    and "in_window (record_minPosition fe self (f_position f)) (f_position f)"
    and "float_of_text rt (f_backrubT f) = Some b"
  shows "readData_row rt (fe, self) line =
     py_then (boltzmann_of_text rt (f_boltzmanT f)) (\<lambda>boltzmanT.
     py_then (readData_store (record_minPosition fe self (f_position f)) (f_macrostate f) b
                (f_ensembleS f) boltzmanT (f_position f) (f_energies f)) (\<lambda>self'.
     Inr (False, self')))"
  unfolding readData_row_fields [OF assms(1)] using assms(2,3) by (simp add: py_float_def)

lemma py_foreach_raises:
  assumes "py_foreach body s pre = Inr s1" "body s1 x = Inl e"
  shows "py_foreach body s (pre @ x # post) = Inl e"
  using assms by (simp add: py_foreach_append)

lemma readData_raises:
  assumes "py_foreach (readData_row rt) (True, self\<lparr>models := Map.empty, minPosition := 65535\<rparr>) pre = Inr st"
    and "readData_row rt st line = Inl e"
  shows "readData rt self (hdr # pre @ line # post) = Inl e"
  using py_foreach_raises [OF assms] by (simp add: readData_def)


subsection \<open>readMicrostateData\<close>

lemma readMicrostateData_row_fields:
  assumes "readMicrostateData_fields rt line = Inr g"
  shows "readMicrostateData_row rt (maxPos, self) line =
     (if in_window self (g_position g) then
        py_then (py_float rt (g_backrubT g)) (\<lambda>backrubT.
        py_then (dict_getitem (macStateToIndex self) (g_macrostate g)) (\<lambda>macrostate.
        py_then (energy_array (g_energies g) indexToRes) (\<lambda>energies.
        Inr (if g_position g > maxPos then g_position g else maxPos,
             readMicrostateData_store self macrostate backrubT (g_position g) energies))))
      else Inr (maxPos, self))"
  using assms by (auto simp: readMicrostateData_row_def Let_def in_window_def)

lemma readMicrostateData_row_Inr:
  assumes "readMicrostateData_row rt (maxPos, self) line = Inr st'"
  obtains g b mac e where
      "readMicrostateData_fields rt line = Inr g" "in_window self (g_position g)"
      "float_of_text rt (g_backrubT g) = Some b"
      "macStateToIndex self (g_macrostate g) = Some mac"
      "energy_array (g_energies g) indexToRes = Inr e"
      "st' = (max maxPos (g_position g), readMicrostateData_store self mac b (g_position g) e)"
    | g where
      "readMicrostateData_fields rt line = Inr g" "\<not> in_window self (g_position g)"
      "st' = (maxPos, self)"
proof -
  have "\<exists>g. readMicrostateData_fields rt line = Inr g"
  proof (cases "readMicrostateData_fields rt line")
    case (Inl e)
    then have "readMicrostateData_row rt (maxPos, self) line = Inl e"
      by (simp add: readMicrostateData_row_def)
    with assms show ?thesis by simp
  next
    case (Inr g)
    then show ?thesis by blast
  qed
  then obtain g where g: "readMicrostateData_fields rt line = Inr g" ..
  note eq = assms [unfolded readMicrostateData_row_fields [OF g]]
  show thesis
  proof (cases "in_window self (g_position g)")
    case True
    with eq obtain b mac e where
      "py_float rt (g_backrubT g) = Inr b"
      "dict_getitem (macStateToIndex self) (g_macrostate g) = Inr mac"
      "energy_array (g_energies g) indexToRes = Inr e"
      "st' = (if g_position g > maxPos then g_position g else maxPos,
              readMicrostateData_store self mac b (g_position g) e)"
      by (auto simp: py_then_eq_Inr)
    moreover from this have "float_of_text rt (g_backrubT g) = Some b"
      "macStateToIndex self (g_macrostate g) = Some mac"
      by (auto simp: py_float_def dict_getitem_def split: option.splits)
    ultimately show thesis using that(1) [OF g True, of b mac e] by (simp add: max_def)
  next
    case False
    with eq have "st' = (maxPos, self)" by simp
    then show thesis using that(2) [OF g False] by simp
  qed
qed

lemma readMicrostateData_store_eq:
  "\<exists>m. readMicrostateData_store self mac b pos e =
         self\<lparr>models := (models self)(calcParamsID (PyFloat b) PyNone PyNone \<mapsto> m)\<rparr> \<and>
       stored_positions m =
         insert pos (case models self (calcParamsID (PyFloat b) PyNone PyNone) of
                       Some m0 \<Rightarrow> stored_positions m0 | None \<Rightarrow> {}) \<and>
       (\<exists>es. microstateData m (mac, pos) = Some es \<and> e \<in> set es) \<and>
       (\<forall>m0 k es0. models self (calcParamsID (PyFloat b) PyNone PyNone) = Some m0 \<longrightarrow>
          microstateData m0 k = Some es0 \<longrightarrow>
          (\<exists>es. microstateData m k = Some es \<and> set es0 \<subseteq> set es))"
proof -
  define ID where "ID = calcParamsID (PyFloat b) PyNone PyNone"
  define m1 where "m1 = (case models self ID of
                 Some existing \<Rightarrow> existing
               | None \<Rightarrow>
                   Model (PyInt 0) (PyFloat b) (PyInt 0) None 0
                     (nPositions self) (minPosition self) True (positionMap self))"
  define m where "m = addMicrostateData m1 mac pos e"
  have 1: "readMicrostateData_store self mac b pos e = self\<lparr>models := (models self)(ID \<mapsto> m)\<rparr>"
    by (simp add: readMicrostateData_store_def Let_def ID_def m_def m1_def)
  have 2: "stored_positions m =
         insert pos (case models self ID of Some m0 \<Rightarrow> stored_positions m0 | None \<Rightarrow> {})"
    by (simp add: m_def m1_def split: option.splits)
  have 3: "\<exists>es. microstateData m (mac, pos) = Some es \<and> e \<in> set es"
    by (simp add: m_def addMicrostateData_def split: option.splits)
  have 4: "\<exists>es. microstateData m k = Some es \<and> set es0 \<subseteq> set es"
    if "models self ID = Some m0" "microstateData m0 k = Some es0" for m0 k es0
    using that by (auto simp: m_def m1_def addMicrostateData_def)
  show ?thesis
    using 1 2 3 4 unfolding ID_def by blast
qed

lemma readMicrostateData_row_inv:
  assumes "micro_inv n minPos msi st" "readMicrostateData_row rt st line = Inr st'"
  shows "micro_inv n minPos msi st'"
proof -
  obtain maxPos self where st: "st = (maxPos, self)" by (cases st)
  from assms(1) st have i: "nPositions self = n" "minPosition self = minPos" "macStateToIndex self = msi"
    "stored_in_window self" "keyed_by_backrub self"
    "\<forall>m \<in> ran (models self). \<forall>p \<in> stored_positions m. p \<le> maxPos"
    by (simp_all add: micro_inv_def)
  from assms(2) [unfolded st] show ?thesis
  proof (cases rule: readMicrostateData_row_Inr)
    case (1 g b mac e)
    from readMicrostateData_store_eq [of self mac b "g_position g" e] obtain m where
      s: "readMicrostateData_store self mac b (g_position g) e =
            self\<lparr>models := (models self)(calcParamsID (PyFloat b) PyNone PyNone \<mapsto> m)\<rparr>" and
      sp: "stored_positions m =
         insert (g_position g) (case models self (calcParamsID (PyFloat b) PyNone PyNone) of
                       Some m0 \<Rightarrow> stored_positions m0 | None \<Rightarrow> {})"
      by blast
    let ?s' = "self\<lparr>models := (models self)(calcParamsID (PyFloat b) PyNone PyNone \<mapsto> m)\<rparr>"
    have w: "stored_in_window ?s'"
      using i(4) 1(2) sp by (rule stored_in_window_update)
    have k: "keyed_by_backrub ?s'"
      using i(5) by (auto simp: keyed_by_backrub_def)
    have "p \<le> max maxPos (g_position g)" if "m' \<in> ran (models ?s')" "p \<in> stored_positions m'" for m' p
    proof (cases "m' = m")
      case True
      then have "p = g_position g \<or> (\<exists>m0 \<in> ran (models self). p \<in> stored_positions m0)"
        using that(2) sp by (auto split: option.splits simp: ran_def)
      then show ?thesis using i(6) by (auto simp: le_max_iff_disj)
    next
      case False
      then have "m' \<in> ran (models self)"
        using that(1) by (auto simp: ran_def split: if_splits)
      then show ?thesis using i(6) that(2) by (auto simp: le_max_iff_disj)
    qed
    then show ?thesis using 1(6) s w k i(1,2,3) by (simp add: micro_inv_def)
  next
    case (2 g)
    then show ?thesis using assms(1) st by simp
  qed
qed

lemma readMicrostateData_Inr:
  assumes "readMicrostateData rt self source minPos = Inr self'"
  obtains maxPos s where
    "py_foreach (readMicrostateData_row rt)
       (0, self\<lparr>models := Map.empty, minPosition := minPos\<rparr>) (drop 1 source) = Inr (maxPos, s)"
    "self' = (if contiguousPositions s then s\<lparr>nPositions := maxPos - minPos + 1\<rparr> else s)"
proof -
  from assms obtain st where
    "py_foreach (readMicrostateData_row rt)
       (0, self\<lparr>models := Map.empty, minPosition := minPos\<rparr>) (drop 1 source) = Inr st"
    "self' = (if contiguousPositions (snd st) then (snd st)\<lparr>nPositions := fst st - minPos + 1\<rparr>
              else snd st)"
    unfolding readMicrostateData_def by (auto simp: py_then_eq_Inr Let_def)
  then show thesis using that [of "fst st" "snd st"] by simp
qed

lemma readMicrostateData_stored:
  assumes "readMicrostateData rt self source minPos = Inr self'"
  shows "stored_in_window self' \<and> minPosition self' = minPos \<and>
         stored_in_window (self'\<lparr>nPositions := nPositions self\<rparr>) \<and> keyed_by_backrub self'"
proof -
  from assms obtain maxPos s where
    l: "py_foreach (readMicrostateData_row rt)
          (0, self\<lparr>models := Map.empty, minPosition := minPos\<rparr>) (drop 1 source) = Inr (maxPos, s)" and
    s': "self' = (if contiguousPositions s then s\<lparr>nPositions := maxPos - minPos + 1\<rparr> else s)"
    by (rule readMicrostateData_Inr)
  have "micro_inv (nPositions self) minPos (macStateToIndex self)
          (0, self\<lparr>models := Map.empty, minPosition := minPos\<rparr>)"
    by (simp add: micro_inv_def stored_in_window_def keyed_by_backrub_def)
  with l have inv: "micro_inv (nPositions self) minPos (macStateToIndex self) (maxPos, s)"
    by (rule py_foreach_invariant) (rule readMicrostateData_row_inv)
  then have a: "nPositions s = nPositions self" "minPosition s = minPos" "stored_in_window s"
    "keyed_by_backrub s" "\<forall>m \<in> ran (models s). \<forall>p \<in> stored_positions m. p \<le> maxPos"
    by (simp_all add: micro_inv_def)
  have 1: "stored_in_window (s\<lparr>nPositions := maxPos - minPos + 1\<rparr>)"
    using a(2,3,5) by (fastforce simp: stored_in_window_def in_window_def)
  have 2: "stored_in_window (s\<lparr>nPositions := nPositions self\<rparr>)"
    using a(1,3) by (simp add: stored_in_window_def in_window_def)
  show ?thesis
    using s' 1 2 a by (auto simp: keyed_by_backrub_def stored_in_window_def in_window_def)
qed









subsection \<open>Stored positions\<close>

lemma Inr_projr: "\<not> isl r \<Longrightarrow> r = Inr (projr r)"
  by simp

text \<open>
  Claim C4: in both loops a line whose position is outside the window
  \<open>[minPosition, minPosition + nPositions)\<close> leaves the loop body with the cache as it
  was and without an exception, and after \<^verbatim>\<open>readData\<close> or \<^verbatim>\<open>readMicrostateData\<close>
  every position stored in a model lies inside the window of the optimizer. For
  \<^verbatim>\<open>readMicrostateData\<close> this holds for the window the filter used and for the window
  after the final assignment to \<^verbatim>\<open>nPositions\<close>.
\<close>

theorem stored_positions_in_window:
  "(readData rt self source = Inr self' \<longrightarrow>
      stored_in_window self' \<and> nPositions self' = nPositions self) \<and>
   (readMicrostateData rt self msource minPos = Inr self'' \<longrightarrow>
      stored_in_window self'' \<and> minPosition self'' = minPos \<and>
      stored_in_window (self''\<lparr>nPositions := nPositions self\<rparr>)) \<and>
   (readData_fields rt s line = Inr f \<and>
    \<not> in_window (record_minPosition fe s (f_position f)) (f_position f) \<longrightarrow>
      readData_row rt (fe, s) line = Inr (False, record_minPosition fe s (f_position f))) \<and>
   (readMicrostateData_fields rt mline = Inr g \<and> \<not> in_window s (g_position g) \<longrightarrow>
      readMicrostateData_row rt (maxPos, s) mline = Inr (maxPos, s))"
  using readData_stored_in_window [of rt self source self']
    readMicrostateData_stored [of rt self msource minPos self'']
    readData_row_fields [of rt s line f fe]
    readMicrostateData_row_fields [of rt mline g maxPos s]
  by simp

theorem stored_positions_in_window_witness:
  "stored_in_window (projr (readData sample_runtime sample_profiled sample_table)) \<and>
   stored_in_window (projr (readMicrostateData sample_runtime sample_profiled sample_microstates 1)) \<and>
   readData_row sample_runtime (False, sample_profiled\<lparr>minPosition := 2\<rparr>)
     (macrostate_line ''A'' ''0.9'' ''50'' ''abc'' ''9'') =
     Inr (False, sample_profiled\<lparr>minPosition := 2\<rparr>) \<and>
   readMicrostateData_row sample_runtime (0, sample_profiled\<lparr>minPosition := 2\<rparr>)
     (microstate_line ''B'' ''0.9'' ''9'') =
     Inr (0, sample_profiled\<lparr>minPosition := 2\<rparr>)"
proof -
  let ?s = "sample_profiled\<lparr>minPosition := 2\<rparr>"
  let ?l = "macrostate_line ''A'' ''0.9'' ''50'' ''abc'' ''9''"
  let ?m = "microstate_line ''B'' ''0.9'' ''9''"
  have 1: "readData sample_runtime sample_profiled sample_table =
      Inr (projr (readData sample_runtime sample_profiled sample_table))"
    by (rule Inr_projr) code_simp
  have 2: "readMicrostateData sample_runtime sample_profiled sample_microstates 1 =
      Inr (projr (readMicrostateData sample_runtime sample_profiled sample_microstates 1))"
    by (rule Inr_projr) code_simp
  have 3: "readData_fields sample_runtime ?s ?l = Inr (projr (readData_fields sample_runtime ?s ?l))"
    by (rule Inr_projr) code_simp
  have 4: "\<not> in_window (record_minPosition False ?s
      (f_position (projr (readData_fields sample_runtime ?s ?l))))
      (f_position (projr (readData_fields sample_runtime ?s ?l)))"
    by code_simp
  have 5: "readMicrostateData_fields sample_runtime ?m =
      Inr (projr (readMicrostateData_fields sample_runtime ?m))"
    by (rule Inr_projr) code_simp
  have 6: "\<not> in_window ?s (g_position (projr (readMicrostateData_fields sample_runtime ?m)))"
    by code_simp
  from stored_positions_in_window [where rt = sample_runtime and self = sample_profiled
      and source = sample_table
      and self' = "projr (readData sample_runtime sample_profiled sample_table)"
      and msource = sample_microstates and minPos = 1
      and self'' = "projr (readMicrostateData sample_runtime sample_profiled sample_microstates 1)"
      and s = ?s and line = ?l and f = "projr (readData_fields sample_runtime ?s ?l)"
      and fe = False and mline = ?m
      and g = "projr (readMicrostateData_fields sample_runtime ?m)" and maxPos = 0]
    1 2 3 4 5 6
  show ?thesis by (simp add: record_minPosition_def)
qed


subsection \<open>The first position of a macrostate table\<close>

text \<open>
  Claim C5: \<^verbatim>\<open>readData\<close> leaves \<^verbatim>\<open>minPosition\<close> at the position of the first data line
  of the table, whatever the later lines hold, and a later line with a smaller position is
  dropped: the table without that line gives the same result.
\<close>

theorem minPosition_of_first_record:
  "(readData rt self (hdr # first # rest) = Inr self' \<longrightarrow>
      (\<exists>f. readData_fields rt self first = Inr f \<and> minPosition self' = f_position f) \<and>
      stored_in_window self') \<and>
   (readData rt self (hdr # first # pre @ row # post) = Inr self'' \<and>
    readData_fields rt self first = Inr ffirst \<and> readData_fields rt self row = Inr frow \<and>
    f_position frow < f_position ffirst \<longrightarrow>
      readData rt self (hdr # first # pre @ post) = Inr self'')"
  using readData_minPosition_first [of rt self hdr first rest self']
    readData_stored_in_window [of rt self "hdr # first # rest" self']
    readData_smaller_dropped [of rt self hdr first pre row post self'' ffirst frow]
  by blast

theorem minPosition_of_first_record_witness:
  "minPosition (projr (readData sample_runtime sample_profiled sample_table)) = 2 \<and>
   readData sample_runtime sample_profiled
     [''header'' @ NL,
      macrostate_line ''A'' ''0.9'' ''50'' ''mean'' ''2'',
      macrostate_line ''B'' ''0.9'' ''50'' ''min'' ''3'',
      macrostate_line ''A'' ''1.8'' ''50'' ''0.0'' ''4''] =
   readData sample_runtime sample_profiled sample_table"
proof -
  let ?first = "macrostate_line ''A'' ''0.9'' ''50'' ''mean'' ''2''"
  let ?row = "macrostate_line ''A'' ''0.9'' ''50'' ''mean'' ''1''"
  let ?post = "[macrostate_line ''B'' ''0.9'' ''50'' ''min'' ''3'',
      macrostate_line ''A'' ''1.8'' ''50'' ''0.0'' ''4'']"
  let ?r = "readData sample_runtime sample_profiled sample_table"
  have t: "sample_table = (''header'' @ NL) # ?first # [] @ ?row # ?post"
    by (simp add: sample_table_def)
  have 1: "?r = Inr (projr ?r)"
    by (rule Inr_projr) code_simp
  have 2: "readData_fields sample_runtime sample_profiled ?first =
      Inr (projr (readData_fields sample_runtime sample_profiled ?first))"
    by (rule Inr_projr) code_simp
  have 3: "readData_fields sample_runtime sample_profiled ?row =
      Inr (projr (readData_fields sample_runtime sample_profiled ?row))"
    by (rule Inr_projr) code_simp
  have 4: "f_position (projr (readData_fields sample_runtime sample_profiled ?first)) = 2"
    "f_position (projr (readData_fields sample_runtime sample_profiled ?row)) = 1"
    by code_simp+
  note inst = minPosition_of_first_record [where rt = sample_runtime and self = sample_profiled
      and hdr = "''header'' @ NL" and first = ?first and rest = "?row # ?post"
      and self' = "projr ?r" and pre = "[]" and row = ?row and post = ?post
      and self'' = "projr ?r"
      and ffirst = "projr (readData_fields sample_runtime sample_profiled ?first)"
      and frow = "projr (readData_fields sample_runtime sample_profiled ?row)"]
  have a: "readData sample_runtime sample_profiled ((''header'' @ NL) # ?first # ?row # ?post) =
      Inr (projr ?r)"
    using 1 t by simp
  from inst a 2 3 4 have
    "(\<exists>f. readData_fields sample_runtime sample_profiled ?first = Inr f \<and>
          minPosition (projr ?r) = f_position f)"
    "readData sample_runtime sample_profiled ((''header'' @ NL) # ?first # ?post) = Inr (projr ?r)"
    by simp_all
  with 2 4 1 show ?thesis by auto
qed

subsection \<open>The Boltzmann temperature of a macrostate line\<close>

text \<open>
  Claim C6, as stated, fails: the Boltzmann temperature of a line is converted only after
  the window test. The last line of the table has the temperature \<open>abc\<close>, which is no
  number, and the position 9 outside the window; \<^verbatim>\<open>readData\<close> skips it and returns.
\<close>

theorem unread_boltzmann_text_counterexample:
  "float_of_text sample_runtime ''abc'' = None \<and>
   map_sum id (\<lambda>s. (minPosition s, nPositions s))
     (readData sample_runtime sample_profiled unread_text_table) = Inr (2, 4)"
  by code_simp

text \<open>
  Claim C6, amended: for a line whose position is inside the window (and whose other fields
  convert), the Boltzmann text \<open>min\<close> stands for 0.0 and \<open>mean\<close> for -1.0; any other
  text is converted by \<^verbatim>\<open>float\<close>, and when that fails the line, and with it
  \<^verbatim>\<open>readData\<close>, raises \<open>ValueError\<close> with the text.
\<close>

theorem boltzmann_text_in_window:
  assumes "readData_fields rt self line = Inr f"
    and "in_window (record_minPosition fe self (f_position f)) (f_position f)"
    and "float_of_text rt (f_backrubT f) = Some b"
  shows "readData_row rt (fe, self) line =
      py_then
        (if f_boltzmanT f = ''min'' then Inr float_zero
         else if f_boltzmanT f = ''mean'' then Inr float_minus_one
         else (case float_of_text rt (f_boltzmanT f) of
                 None \<Rightarrow> Inl (ValueError (f_boltzmanT f))
               | Some x \<Rightarrow> Inr x))
        (\<lambda>boltzmanT.
           py_then (readData_store (record_minPosition fe self (f_position f)) (f_macrostate f) b
                      (f_ensembleS f) boltzmanT (f_position f) (f_energies f))
             (\<lambda>self'. Inr (False, self'))) \<and>
    py_str (PyFloat float_zero) = ''0.0'' \<and> py_str (PyFloat float_minus_one) = ''-1.0'' \<and>
    (py_foreach (readData_row rt) (True, self0\<lparr>models := Map.empty, minPosition := 65535\<rparr>) pre =
       Inr (fe, self) \<and> readData_row rt (fe, self) line = Inl e \<longrightarrow>
     readData rt self0 (hdr # pre @ line # post) = Inl e)"
proof -
  have 1: "py_str (PyFloat float_zero) = ''0.0''" "py_str (PyFloat float_minus_one) = ''-1.0''"
    by code_simp+
  show ?thesis
    using readData_row_boltzmann [OF assms] 1
      readData_raises [of rt self0 pre "(fe, self)" line e hdr post]
    by (simp add: boltzmann_of_text_cases)
qed

theorem boltzmann_text_in_window_witness:
  "readData sample_runtime sample_profiled bad_text_table = Inl (ValueError ''abc'')"
proof -
  let ?first = "macrostate_line ''A'' ''0.9'' ''50'' ''mean'' ''2''"
  let ?line = "macrostate_line ''A'' ''0.9'' ''50'' ''abc'' ''3''"
  let ?init = "(True, sample_profiled\<lparr>models := Map.empty, minPosition := 65535\<rparr>)"
  let ?st = "projr (py_foreach (readData_row sample_runtime) ?init [?first])"
  let ?f = "projr (readData_fields sample_runtime (snd ?st) ?line)"
  have t: "bad_text_table = (''header'' @ NL) # [?first] @ ?line # []"
    by (simp add: bad_text_table_def)
  have "\<not> isl (py_foreach (readData_row sample_runtime) ?init [?first])"
    by code_simp
  from Inr_projr [OF this]
  have 1: "py_foreach (readData_row sample_runtime) ?init [?first] = Inr (fst ?st, snd ?st)"
    by simp
  have 2: "readData_fields sample_runtime (snd ?st) ?line = Inr ?f"
    by (rule Inr_projr) code_simp
  have 3: "in_window (record_minPosition (fst ?st) (snd ?st) (f_position ?f)) (f_position ?f)"
    by code_simp
  have 4: "float_of_text sample_runtime (f_backrubT ?f) = Some (Finite False [9] 0)"
    by code_simp
  have 5: "f_boltzmanT ?f = ''abc''" "float_of_text sample_runtime ''abc'' = None"
    by code_simp+
  note inst = boltzmann_text_in_window [OF 2 3 4, where ?self0.0 = sample_profiled
      and pre = "[?first]" and e = "ValueError ''abc''" and hdr = "''header'' @ NL" and post = "[]"]
  from inst 5 have "readData_row sample_runtime (fst ?st, snd ?st) ?line = Inl (ValueError ''abc'')"
    by simp
  with inst 1 show ?thesis unfolding t by blast
qed

subsection \<open>The keys of the cache after a microstate load\<close>



section \<open>Properties of positionReindexer\<close>

lemma positionReindexer_loop_Cons:
  "positionReindexer_loop indices n (line # rest) =
     Inl (if 3 \<le> length (split_chr CHR '' '' line) then TypeError else IndexError)"
  by (simp add: py_getitem_def py_index_def Let_def)

text \<open>
  Claim C9, as stated, fails: a file whose only line has fewer than three
  space-separated fields makes \<^verbatim>\<open>entries[2]\<close> raise \<open>IndexError\<close>, before the
  subscript assignment is reached.
\<close>

theorem positionReindexer_IndexError_counterexample:
  "positionReindexer [''1 2'' @ [CHR 0x0A]] = Inl IndexError
   \<and> positionReindexer [''1 2'' @ [CHR 0x0A]] \<noteq> Inl TypeError"
  by (simp add: positionReindexer_def py_getitem_def py_index_def Let_def)

text \<open>
  Claim C9, amended: \<^verbatim>\<open>positionReindexer\<close> raises on every input file and never returns
  the index mapping. On a file with at least one line the exception comes from the first
  line: \<open>TypeError\<close> (list subscripted with a string) when that line has at least three
  space-separated fields, \<open>IndexError\<close> otherwise. On an empty file the final
  \<^verbatim>\<open>indices['nPos'] = n\<close> raises \<open>TypeError\<close>.
\<close>

theorem positionReindexer_always_raises:
  "positionReindexer [] = Inl TypeError
   \<and> positionReindexer (line # rest) =
       Inl (if 3 \<le> length (split_chr CHR '' '' line) then TypeError else IndexError)
   \<and> (\<exists>e. positionReindexer data = Inl e)"
proof -
  have 1: "positionReindexer [] = Inl TypeError"
    by (simp add: positionReindexer_def)
  have 2: "positionReindexer (l # ls) =
     Inl (if 3 \<le> length (split_chr CHR '' '' l) then TypeError else IndexError)" for l ls
    unfolding positionReindexer_def positionReindexer_loop_Cons by simp
  have "\<exists>e. positionReindexer data = Inl e"
  proof (cases data)
    case Nil
    then show ?thesis using 1 by simp
  next
    case (Cons l ls)
    then show ?thesis using 2 [of l ls] by simp
  qed
  then show ?thesis using 1 2 by simp
qed

theorem positionReindexer_always_raises_witness:
  "positionReindexer [''7 x 12'' @ [CHR 0x0A], ''8 x 13'' @ [CHR 0x0A]] = Inl TypeError"
  using positionReindexer_always_raises [of "''7 x 12'' @ [CHR 0x0A]" "[''8 x 13'' @ [CHR 0x0A]]" "[]"]
  by simp

end
